theory Spec2Isabelle
  imports Complex_Main "HOL-Library.Sublist"
begin

section \<open>Python strings\<close>

text \<open>
  Text is modelled as \<open>string\<close> (a list of 8-bit characters) and read as ASCII: the
  character classes, the case mappings and \<open>strip\<close> below are those of Python's \<open>str\<close>
  on code points below 128; every other character is neither white space, nor a letter,
  nor a digit.
\<close>

definition is_space :: "char \<Rightarrow> bool" where
  \<comment> \<open>\<open>str.isspace\<close>, and \<open>\s\<close> of \<open>re\<close>: tab, LF, VT, FF, CR, FS, GS, RS, US, space\<close>
  "is_space c = (let n = (of_char c :: nat) in (9 \<le> n \<and> n \<le> 13) \<or> (28 \<le> n \<and> n \<le> 32))"

definition is_digit :: "char \<Rightarrow> bool" where
  \<comment> \<open>\<open>\d\<close>\<close>
  "is_digit c = (let n = (of_char c :: nat) in 48 \<le> n \<and> n \<le> 57)"

definition is_word :: "char \<Rightarrow> bool" where
  \<comment> \<open>\<open>\w\<close>: a letter, a digit or the underscore\<close>
  "is_word c = (let n = (of_char c :: nat) in
     (48 \<le> n \<and> n \<le> 57) \<or> (65 \<le> n \<and> n \<le> 90) \<or> (97 \<le> n \<and> n \<le> 122) \<or> n = 95)"

definition lower_char :: "char \<Rightarrow> char" where
  "lower_char c = (let n = (of_char c :: nat) in
     if 65 \<le> n \<and> n \<le> 90 then char_of (n + 32) else c)"

definition upper_char :: "char \<Rightarrow> char" where
  "upper_char c = (let n = (of_char c :: nat) in
     if 97 \<le> n \<and> n \<le> 122 then char_of (n - 32) else c)"

definition lower :: "string \<Rightarrow> string" where
  \<comment> \<open>\<open>str.lower\<close>\<close>
  "lower s = map lower_char s"

definition upper :: "string \<Rightarrow> string" where
  \<comment> \<open>\<open>str.upper\<close>\<close>
  "upper s = map upper_char s"

definition strip :: "string \<Rightarrow> string" where
  \<comment> \<open>\<open>str.strip()\<close>: white space removed at both ends\<close>
  "strip s = rev (dropWhile is_space (rev (dropWhile is_space s)))"

definition rstrip_chr :: "char \<Rightarrow> string \<Rightarrow> string" where
  \<comment> \<open>\<open>s.rstrip(c)\<close> for a one-character argument\<close>
  "rstrip_chr c s = rev (dropWhile (\<lambda>x. x = c) (rev s))"

fun contains :: "string \<Rightarrow> string \<Rightarrow> bool" where
  \<comment> \<open>\<open>sub in s\<close>\<close>
  "contains sub [] = (sub = [])"
| "contains sub (c # cs) = (prefix sub (c # cs) \<or> contains sub cs)"

function replace_ne :: "string \<Rightarrow> string \<Rightarrow> string \<Rightarrow> string" where
  "replace_ne old new [] = []"
| "replace_ne old new (c # cs) =
     (if old \<noteq> [] \<and> prefix old (c # cs)
      then new @ replace_ne old new (drop (length old) (c # cs))
      else c # replace_ne old new cs)"
  by pat_completeness auto
termination
  by (relation "measure (\<lambda>(old, new, s). length s)") (auto simp: neq_Nil_conv)

definition replace :: "string \<Rightarrow> string \<Rightarrow> string \<Rightarrow> string" where
  \<comment> \<open>\<open>s.replace(old, new)\<close>: the occurrences of \<open>old\<close> are found from the left and do not
      overlap; an empty \<open>old\<close> matches before every character and at the end\<close>
  "replace old new s =
     (if old = [] then new @ concat (map (\<lambda>c. c # new) s) else replace_ne old new s)"

function split_from :: "string \<Rightarrow> string \<Rightarrow> string \<Rightarrow> string list" where
  "split_from sep cur [] = [rev cur]"
| "split_from sep cur (c # cs) =
     (if sep \<noteq> [] \<and> prefix sep (c # cs)
      then rev cur # split_from sep [] (drop (length sep) (c # cs))
      else split_from sep (c # cur) cs)"
  by pat_completeness auto
termination
  by (relation "measure (\<lambda>(sep, cur, s). length s)") (auto simp: neq_Nil_conv)

definition split :: "string \<Rightarrow> string \<Rightarrow> string list" where
  \<comment> \<open>\<open>s.split(sep)\<close> for a non-empty separator: always at least one part\<close>
  "split sep s = split_from sep [] s"

definition partition_chr :: "char \<Rightarrow> string \<Rightarrow> string \<times> string \<times> string" where
  \<comment> \<open>\<open>s.partition(c)\<close>: the text before the first \<open>c\<close>, the separator, the text after it;
      without a \<open>c\<close> the whole text and two empty strings\<close>
  "partition_chr c s =
     (let before = takeWhile (\<lambda>x. x \<noteq> c) s; rest = dropWhile (\<lambda>x. x \<noteq> c) s
      in case rest of [] \<Rightarrow> (before, [], []) | x # after \<Rightarrow> (before, [x], after))"

fun join :: "string \<Rightarrow> string list \<Rightarrow> string" where
  \<comment> \<open>\<open>sep.join(parts)\<close>\<close>
  "join sep [] = []"
| "join sep [p] = p"
| "join sep (p # q # ps) = p @ sep @ join sep (q # ps)"

section \<open>Data model\<close>

text \<open>
  Modelled from the spec: the classes \<open>Relation\<close> and \<open>Rule\<close> are collaborators of the
  engine and are not part of the sources at hand. A relation has a name, an arity, a
  list of variable types (their \<open>str\<close> form), observed and unobserved rows of argument
  strings, the flag "is observed" and an optional negative prior weight; a rule has a
  text, a weight and the flag "is weighted". The accessors the engine calls read these
  fields; \<open>has_observed_data\<close>, \<open>has_unobserved_data\<close> and \<open>has_negative_prior_weight\<close>
  say that the rows, respectively the weight, are present.

  Floats stay abstract: \<open>'f\<close> is the type of Python's floats, \<open>0\<close> and \<open>1\<close> are \<open>0.0\<close>
  and \<open>1.0\<close>, and the two conversions the engine uses are parameters of the functions
  below: \<open>pf :: string \<Rightarrow> 'f option\<close> is \<open>float(s)\<close> (\<open>None\<close> where it raises
  \<open>ValueError\<close>) and \<open>fmt :: 'f \<Rightarrow> string\<close> is \<open>"%f" % x\<close>.
\<close>

datatype 'f slot =
    Unset       \<comment> \<open>\<open>False\<close>, the initial entry of \<open>new_weights\<close>\<close>
  | Weight 'f   \<comment> \<open>a float\<close>
  | Hard        \<comment> \<open>\<open>None\<close>: no weight, the rule is hard\<close>

record 'f relation =
  name :: string
  arity :: nat
  variable_types :: "string list"
  observed_data :: "string list list"
  unobserved_data :: "string list list"
  is_observed :: bool
  negative_prior_weight :: "'f option"

record 'f rule =
  rule_text :: string
  weight :: "'f slot"
  is_weighted :: bool

definition has_observed_data :: "'f relation \<Rightarrow> bool" where
  "has_observed_data r = (observed_data r \<noteq> [])"

definition has_unobserved_data :: "'f relation \<Rightarrow> bool" where
  "has_unobserved_data r = (unobserved_data r \<noteq> [])"

definition has_negative_prior_weight :: "'f relation \<Rightarrow> bool" where
  "has_negative_prior_weight r = (negative_prior_weight r \<noteq> None)"

definition set_negative_prior_weight :: "'f \<Rightarrow> 'f relation \<Rightarrow> 'f relation" where
  "set_negative_prior_weight w r = r\<lparr>negative_prior_weight := Some w\<rparr>"


datatype error =
    ValueError string   \<comment> \<open>with its message (empty where Python builds it)\<close>
  | IndexError
  | KeyError
  | TypeError
  | OverflowError

section \<open>Evidence and query files\<close>

text \<open>A file is the list of the lines that \<open>_write_file\<close> writes, without the newlines.\<close>

definition underscore_spaces :: "string list \<Rightarrow> string list" where
  \<comment> \<open>\<open>list(map(lambda argument: argument.replace(' ', '_'), row))\<close>\<close>
  "underscore_spaces row = map (replace '' '' ''_'') row"

definition fact :: "'f relation \<Rightarrow> string list \<Rightarrow> string" where
  \<comment> \<open>\<open>"%s(%s)" % (relation.name(), ', '.join(map(str, row[0:relation.arity()])))\<close>\<close>
  "fact r row = name r @ ''('' @ join '', '' (take (arity r) row) @ '')''"

definition evidence_line ::
  "(string \<Rightarrow> 'f option) \<Rightarrow> ('f \<Rightarrow> string) \<Rightarrow> 'f relation \<Rightarrow> string list \<Rightarrow> error + string" where
  "evidence_line pf fmt r row0 =
     (let row = underscore_spaces row0; line = fact r row
      in if length row > arity r
         then (case pf (last row) of
                 None \<Rightarrow> Inl (ValueError [])
               | Some w \<Rightarrow> Inr (fmt w @ '' '' @ line))
         else Inr line)"

fun collect :: "('a \<Rightarrow> error + 'b) \<Rightarrow> 'a list \<Rightarrow> error + 'b list" where
  \<comment> \<open>a loop appending one result per element, left at the first element that raises\<close>
  "collect f [] = Inr []"
| "collect f (x # xs) =
     (case f x of
        Inl e \<Rightarrow> Inl e
      | Inr y \<Rightarrow> (case collect f xs of Inl e \<Rightarrow> Inl e | Inr ys \<Rightarrow> Inr (y # ys)))"

fun write_evidence ::
  "(string \<Rightarrow> 'f option) \<Rightarrow> ('f \<Rightarrow> string) \<Rightarrow> 'f relation list \<Rightarrow> error + string list" where
  "write_evidence pf fmt [] = Inr []"
| "write_evidence pf fmt (r # rs) =
     (if \<not> has_observed_data r then write_evidence pf fmt rs
      else (case collect (evidence_line pf fmt r) (observed_data r) of
              Inl e \<Rightarrow> Inl e
            | Inr ls \<Rightarrow> (case write_evidence pf fmt rs of
                          Inl e \<Rightarrow> Inl e
                        | Inr rest \<Rightarrow> Inr (ls @ rest))))"

definition query_line :: "'f relation \<Rightarrow> string list \<Rightarrow> string" where
  "query_line r row0 = (let row = underscore_spaces row0 in fact r row)"

fun write_query :: "'f relation list \<Rightarrow> string list" where
  "write_query [] = []"
| "write_query (r # rs) =
     (if \<not> has_unobserved_data r then write_query rs
      else map (query_line r) (unobserved_data r) @ write_query rs)"

section \<open>Regular expressions\<close>

text \<open>
  The patterns of the engine are run by a backtracking matcher that tries the
  alternatives in the order of Python's \<open>re\<close>: a greedy repetition first tries one more
  iteration, a lazy one first tries to stop. A match state is the text still to be read
  and the groups captured so far; \<open>run r n st\<close> lists the states in which a match of \<open>r\<close>
  from \<open>st\<close> can end, the preferred one first (\<open>n\<close> is the length of the whole subject, by
  which \<open>^\<close> recognises the start). Every repetition in the patterns below is over a
  single character, so an iteration reads one character and the length of the remaining
  text bounds the iterations.
\<close>

datatype cls =
    Digit         \<comment> \<open>\<open>\d\<close>\<close>
  | Word          \<comment> \<open>\<open>\w\<close>\<close>
  | Space         \<comment> \<open>\<open>\s\<close>\<close>
  | Dot           \<comment> \<open>\<open>.\<close>: any character but the newline\<close>
  | Chr char      \<comment> \<open>a literal character\<close>
  | NotChr char   \<comment> \<open>\<open>[^c]\<close>\<close>

fun accepts :: "cls \<Rightarrow> char \<Rightarrow> bool" where
  "accepts Digit c = is_digit c"
| "accepts Word c = is_word c"
| "accepts Space c = is_space c"
| "accepts Dot c = (c \<noteq> CHR 0x0A)"
| "accepts (Chr x) c = (c = x)"
| "accepts (NotChr x) c = (c \<noteq> x)"

datatype re =
    Eps
  | Atom cls
  | Seq re re
  | Opt re          \<comment> \<open>\<open>r?\<close>\<close>
  | Star re         \<comment> \<open>\<open>r*\<close>\<close>
  | Plus re         \<comment> \<open>\<open>r+\<close>\<close>
  | LazyPlus re     \<comment> \<open>\<open>r+?\<close>\<close>
  | Group nat re    \<comment> \<open>a capturing group and its number\<close>
  | Bol             \<comment> \<open>\<open>^\<close>\<close>
  | Eol             \<comment> \<open>\<open>$\<close>: the end of the text, or just before a newline that ends it\<close>

type_synonym mstate = "string \<times> (nat \<times> string) list"

fun star_greedy :: "(mstate \<Rightarrow> mstate list) \<Rightarrow> nat \<Rightarrow> mstate \<Rightarrow> mstate list" where
  "star_greedy f 0 st = [st]"
| "star_greedy f (Suc k) st = concat (map (star_greedy f k) (f st)) @ [st]"

fun star_lazy :: "(mstate \<Rightarrow> mstate list) \<Rightarrow> nat \<Rightarrow> mstate \<Rightarrow> mstate list" where
  "star_lazy f 0 st = [st]"
| "star_lazy f (Suc k) st = st # concat (map (star_lazy f k) (f st))"

primrec run :: "re \<Rightarrow> nat \<Rightarrow> mstate \<Rightarrow> mstate list" where
  "run Eps n st = [st]"
| "run (Atom c) n st =
     (case fst st of [] \<Rightarrow> [] | x # xs \<Rightarrow> if accepts c x then [(xs, snd st)] else [])"
| "run (Seq a b) n st = concat (map (run b n) (run a n st))"
| "run (Opt a) n st = run a n st @ [st]"
| "run (Star a) n st = star_greedy (run a n) (length (fst st)) st"
| "run (Plus a) n st =
     concat (map (\<lambda>st'. star_greedy (run a n) (length (fst st')) st') (run a n st))"
| "run (LazyPlus a) n st =
     concat (map (\<lambda>st'. star_lazy (run a n) (length (fst st')) st') (run a n st))"
| "run (Group k a) n st =
     map (\<lambda>st'. (fst st', (k, take (length (fst st) - length (fst st')) (fst st)) # snd st'))
       (run a n st)"
| "run Bol n st = (if length (fst st) = n then [st] else [])"
| "run Eol n st = (if fst st = [] \<or> fst st = [CHR 0x0A] then [st] else [])"

definition cat :: "re list \<Rightarrow> re" where
  "cat rs = foldr Seq rs Eps"

definition lit :: "string \<Rightarrow> re" where
  "lit s = cat (map (\<lambda>c. Atom (Chr c)) s)"

fun search_from :: "re \<Rightarrow> nat \<Rightarrow> string \<Rightarrow> mstate option" where
  "search_from r n [] = (case run r n ([], []) of [] \<Rightarrow> None | st # _ \<Rightarrow> Some st)"
| "search_from r n (c # cs) =
     (case run r n (c # cs, []) of [] \<Rightarrow> search_from r n cs | st # _ \<Rightarrow> Some st)"

definition group :: "(nat \<times> string) list \<Rightarrow> nat \<Rightarrow> string" where
  \<comment> \<open>\<open>match.group(k)\<close>; every group of the patterns below takes part in every match\<close>
  "group caps k = (case map_of caps k of Some g \<Rightarrow> g | None \<Rightarrow> [])"

definition re_search :: "re \<Rightarrow> string \<Rightarrow> (nat \<Rightarrow> string) option" where
  \<comment> \<open>\<open>re.search(r, s)\<close>: the match at the leftmost position that has one\<close>
  "re_search r s = map_option (\<lambda>st. group (snd st)) (search_from r (length s) s)"

function re_sub_empty :: "re \<Rightarrow> nat \<Rightarrow> string \<Rightarrow> string" where
  \<comment> \<open>\<open>re.sub(r, '', s)\<close> for a pattern that matches no empty text\<close>
  "re_sub_empty r n [] = []"
| "re_sub_empty r n (c # cs) =
     (case run r n (c # cs, []) of
        [] \<Rightarrow> c # re_sub_empty r n cs
      | st # _ \<Rightarrow> if length (fst st) < length (c # cs) then re_sub_empty r n (fst st)
                  else c # re_sub_empty r n cs)"
  by pat_completeness auto
termination
  by (relation "measure (\<lambda>(r, n, s). length s)") auto

definition float_re :: re where
  \<comment> \<open>\<open>-?\d+(?:\.\d+)\<close>\<close>
  "float_re = cat [Opt (Atom (Chr CHR ''-'')), Plus (Atom Digit),
     cat [Atom (Chr CHR ''.''), Plus (Atom Digit)]]"

definition index_re :: re where
  \<comment> \<open>\<open>\d+\.0\<close>\<close>
  "index_re = cat [Plus (Atom Digit), lit ''.0'']"

definition prior_re :: re where
  \<comment> \<open>\<open>^(-?\d+(?:\.\d+))\s+!(\w+)\([^\)]+\)\s+\/\/(\d+\.0)$\<close>\<close>
  "prior_re = cat [Bol, Group 1 float_re, Plus (Atom Space), lit ''!'', Group 2 (Plus (Atom Word)),
     lit ''('', Plus (Atom (NotChr CHR '')'')), lit '')'', Plus (Atom Space), lit ''//'',
     Group 3 index_re, Eol]"

definition soft_re :: re where
  \<comment> \<open>\<open>^(-?\d+(?:\.\d+))\s+.+?\s+\/\/(\d+\.0)$\<close>\<close>
  "soft_re = cat [Bol, Group 1 float_re, Plus (Atom Space), LazyPlus (Atom Dot),
     Plus (Atom Space), lit ''//'', Group 2 index_re, Eol]"

definition hard_re :: re where
  \<comment> \<open>\<open> \. \/\/(\d+\.0)hardfixed$\<close>\<close>
  "hard_re = cat [lit '' . //'', Group 1 index_re, lit ''hardfixed'', Eol]"

definition guard_re :: re where
  \<comment> \<open>\<open>,\s*\(\w+\s*!=\s*\w+\)\<close>\<close>
  "guard_re = cat [lit '','', Star (Atom Space), lit ''('', Plus (Atom Word), Star (Atom Space),
     lit ''!='', Star (Atom Space), Plus (Atom Word), lit '')'']"

section \<open>Program file\<close>

definition declaration_line :: "'f relation \<Rightarrow> string" where
  "declaration_line r =
     (let predicate = name r @ ''('' @ join '', '' (variable_types r) @ '')''
      in if is_observed r then ''*'' @ predicate else predicate)"

definition translate_rule :: "'f relation list \<Rightarrow> string \<Rightarrow> string" where
  \<comment> \<open>the text of a rule as the loop over the rules rewrites it\<close>
  "translate_rule rels txt =
     (let rule = replace ''&'' '','' txt;
          rule = replace ''->'' ''=>'' rule;
          rule = replace '' = '' '' => '' rule;
          rule = re_sub_empty guard_re (length rule) rule;
          rule = lower rule
      in fold (\<lambda>relation rule. replace (lower (name relation)) (name relation) rule) rels rule)"

definition format_weight :: "('f::zero \<Rightarrow> string) \<Rightarrow> 'f slot \<Rightarrow> error + string" where
  \<comment> \<open>\<open>"%f" % w\<close>: \<open>False\<close> is formatted as \<open>0.0\<close>, \<open>None\<close> raises\<close>
  "format_weight fmt w =
     (case w of Weight x \<Rightarrow> Inr (fmt x) | Unset \<Rightarrow> Inr (fmt 0) | Hard \<Rightarrow> Inl TypeError)"

definition rule_line ::
  "('f::zero \<Rightarrow> string) \<Rightarrow> 'f relation list \<Rightarrow> 'f rule \<Rightarrow> error + string" where
  "rule_line fmt rels r =
     (let rule = translate_rule rels (rule_text r)
      in if is_weighted r
         then (case format_weight fmt (weight r) of
                 Inl e \<Rightarrow> Inl e
               | Inr w \<Rightarrow> Inr (w @ '' '' @ rule))
         else Inr (rule @ '' .''))"

definition ascii_lowercase :: string where
  "ascii_lowercase = ''abcdefghijklmnopqrstuvwxyz''"

definition prior_line :: "('f \<Rightarrow> string) \<Rightarrow> 'f relation \<Rightarrow> error + string" where
  "prior_line fmt r =
     (let arguments = join '', '' (map (\<lambda>v. [v]) (take (arity r) ascii_lowercase))
      in case negative_prior_weight r of
           None \<Rightarrow> Inl TypeError
         | Some w \<Rightarrow> Inr (fmt w @ '' !'' @ name r @ ''('' @ arguments @ '')''))"

definition write_program ::
  "('f::zero \<Rightarrow> string) \<Rightarrow> 'f relation list \<Rightarrow> 'f rule list \<Rightarrow> error + string list" where
  "write_program fmt rels rules =
     (let has_prior = fold (\<lambda>r b. b \<or> has_negative_prior_weight r) rels False;
          program = map declaration_line rels @ [[]]
      in case collect (rule_line fmt rels) rules of
           Inl e \<Rightarrow> Inl e
         | Inr rule_lines \<Rightarrow>
             if has_prior
             then (case collect (prior_line fmt) (filter has_negative_prior_weight rels) of
                     Inl e \<Rightarrow> Inl e
                   | Inr prior_lines \<Rightarrow> Inr (program @ rule_lines @ [[]] @ prior_lines))
             else Inr (program @ rule_lines))"

section \<open>Running the engine\<close>

text \<open>
  The engine itself is outside the program: it is a parameter, a function from the three
  files written for it to the lines of the output file it leaves (each line as iterating
  over the file yields it).
\<close>

type_synonym files = "string list \<times> string list \<times> string list"

definition prep_run ::
  "(string \<Rightarrow> 'f option) \<Rightarrow> ('f::zero \<Rightarrow> string) \<Rightarrow> 'f relation list \<Rightarrow> 'f rule list
     \<Rightarrow> error + files" where
  "prep_run pf fmt rels rules =
     (case write_program fmt rels rules of
        Inl e \<Rightarrow> Inl e
      | Inr program \<Rightarrow>
          (case write_evidence pf fmt rels of
             Inl e \<Rightarrow> Inl e
           | Inr evidence \<Rightarrow> Inr (program, evidence, write_query rels)))"

section \<open>Learned weights\<close>

fun bit_length :: "nat \<Rightarrow> nat" where
  "bit_length n = (if n = 0 then 0 else Suc (bit_length (n div 2)))"

definition to_double :: "nat \<Rightarrow> nat option" where
  \<comment> \<open>the double nearest to a natural number, ties to even; \<open>None\<close> is infinity. A number
      of at most 53 bits is a double itself\<close>
  "to_double v =
     (if bit_length v \<le> 53 then Some v
      else let e = bit_length v - 53; q = v div 2 ^ e; r = v mod 2 ^ e; h = 2 ^ (e - 1);
               q' = (if h < r \<or> (r = h \<and> odd q) then q + 1 else q);
               d = q' * 2 ^ e
           in if 2 ^ 1024 \<le> d then None else Some d)"

definition digits_val :: "string \<Rightarrow> nat" where
  "digits_val ds = foldl (\<lambda>a c. 10 * a + (of_char c - 48)) 0 ds"

definition int_float :: "string \<Rightarrow> error + int" where
  \<comment> \<open>\<open>int(float(g))\<close> for a text \<open>g\<close> of the form \<open>\d+\.0\<close>; \<open>int\<close> of infinity raises\<close>
  "int_float g =
     (case to_double (digits_val (takeWhile is_digit g)) of
        None \<Rightarrow> Inl OverflowError
      | Some v \<Rightarrow> Inr (int v))"

definition assign :: "'a list \<Rightarrow> int \<Rightarrow> 'a \<Rightarrow> error + 'a list" where
  \<comment> \<open>\<open>xs[i] = v\<close>: a negative index counts from the end\<close>
  "assign xs i v =
     (if 0 \<le> i \<and> i < int (length xs) then Inr (xs[nat i := v])
      else if i < 0 \<and> - int (length xs) \<le> i then Inr (xs[nat (int (length xs) + i) := v])
      else Inl IndexError)"

text \<open>
  A relation object is referred to by its position in the list of relations: the
  dictionary \<open>relation_map\<close> maps an upper-case name to the position of the relation it
  stands for, and a later relation of the same upper-case name replaces an earlier one.
\<close>

definition relation_map :: "'f relation list \<Rightarrow> (string \<rightharpoonup> nat)" where
  "relation_map rels = fold (\<lambda>i m. m(upper (name (rels ! i)) \<mapsto> i)) [0..<length rels] Map.empty"

definition quoted :: "string \<Rightarrow> string" where
  "quoted s = [CHR 0x27] @ s @ [CHR 0x27]"

definition parse_line ::
  "(string \<Rightarrow> 'f option) \<Rightarrow> string \<Rightarrow> 'f slot list \<times> 'f relation list
     \<Rightarrow> error + 'f slot list \<times> 'f relation list" where
  \<comment> \<open>the body of the loop for a stripped, non-empty line after the marker\<close>
  "parse_line pf line st =
     (let new_weights = fst st; rels = snd st
      in case re_search prior_re line of
           Some g \<Rightarrow>
             (case pf (g 1) of
                None \<Rightarrow> Inl (ValueError [])
              | Some w \<Rightarrow>
                  (let relation_name = upper (g 2)
                   in case relation_map rels relation_name of
                        None \<Rightarrow> Inl (ValueError (''Could not find relation ('' @ relation_name
                                  @ '') found in prior: '' @ quoted line @ ''.''))
                      | Some i \<Rightarrow>
                          Inr (new_weights, rels[i := set_negative_prior_weight w (rels ! i)])))
         | None \<Rightarrow>
             (case re_search soft_re line of
                Some g \<Rightarrow>
                  (case pf (g 1) of
                     None \<Rightarrow> Inl (ValueError [])
                   | Some w \<Rightarrow>
                       (case int_float (g 2) of
                          Inl e \<Rightarrow> Inl e
                        | Inr k \<Rightarrow>
                            (case assign new_weights (k - 1) (Weight w) of
                               Inl e \<Rightarrow> Inl e
                             | Inr ws \<Rightarrow> Inr (ws, rels))))
              | None \<Rightarrow>
                  (case re_search hard_re line of
                     Some g \<Rightarrow>
                       (case int_float (g 1) of
                          Inl e \<Rightarrow> Inl e
                        | Inr k \<Rightarrow>
                            (case assign new_weights (k - 1) Hard of
                               Inl e \<Rightarrow> Inl e
                             | Inr ws \<Rightarrow> Inr (ws, rels)))
                   | None \<Rightarrow>
                       Inl (ValueError (''Could not parse learned Tuffy weight from output rule: ''
                              @ quoted line @ ''.'')))))"

fun parse_lines ::
  "(string \<Rightarrow> 'f option) \<Rightarrow> bool \<Rightarrow> string list \<Rightarrow> 'f slot list \<times> 'f relation list
     \<Rightarrow> error + 'f slot list \<times> 'f relation list" where
  "parse_lines pf skip [] st = Inr st"
| "parse_lines pf skip (l # ls) st =
     (if contains ''WEIGHT OF LAST ITERATION'' l then parse_lines pf False ls st
      else if skip then parse_lines pf skip ls st
      else let line = strip l
           in if line = [] then parse_lines pf skip ls st
              else (case parse_line pf line st of
                      Inl e \<Rightarrow> Inl e
                    | Inr st' \<Rightarrow> parse_lines pf skip ls st'))"

definition parse_weights ::
  "(string \<Rightarrow> 'f option) \<Rightarrow> 'f relation list \<Rightarrow> 'f rule list \<Rightarrow> string list
     \<Rightarrow> error + 'f slot list \<times> 'f relation list" where
  \<comment> \<open>the weights returned, and the relations with the prior weights set on them\<close>
  "parse_weights pf rels rules out =
     parse_lines pf True out (replicate (length rules) Unset, rels)"


section \<open>Inference results\<close>

fun find_relation_from :: "nat \<Rightarrow> 'f relation list \<Rightarrow> string \<Rightarrow> nat option" where
  "find_relation_from i [] nm = None"
| "find_relation_from i (relation # rest) nm =
     (if lower (name relation) = lower nm then Some i else find_relation_from (Suc i) rest nm)"

definition find_relation :: "'f relation list \<Rightarrow> string \<Rightarrow> nat option" where
  \<comment> \<open>the position of the first relation of that name, letter case apart; \<open>None\<close> is
      Python's \<open>None\<close>\<close>
  "find_relation rels nm = find_relation_from 0 rels nm"

type_synonym 'f results = "nat option \<rightharpoonup> (string list \<rightharpoonup> 'f)"

definition read_line ::
  "(string \<Rightarrow> 'f option) \<Rightarrow> 'f relation list \<Rightarrow> bool \<Rightarrow> string \<Rightarrow> ('f::one) results
     \<Rightarrow> error + 'f results" where
  \<comment> \<open>the body of the loop for a stripped, non-empty line\<close>
  "read_line pf rels has_value line results =
     (let parts = split [CHR 0x09] line;
          atom = hd parts
      in case (if has_value
               then (case parts of
                       _ # p # _ \<Rightarrow> (case pf p of None \<Rightarrow> Inl (ValueError []) | Some v \<Rightarrow> Inr v)
                     | _ \<Rightarrow> Inl IndexError)
               else Inr 1) of
           Inl e \<Rightarrow> Inl e
         | Inr val \<Rightarrow>
             (let (predicate, _, arguments) = partition_chr CHR ''('' atom;
                  relation = find_relation rels predicate;
                  arguments = split '', '' (replace [CHR 0x22] [] (rstrip_chr CHR '')'' arguments));
                  results = (if results relation = None then results(relation \<mapsto> Map.empty)
                             else results)
              in Inr (results(relation \<mapsto> (case results relation of
                                                Some m \<Rightarrow> m(arguments \<mapsto> val)
                                              | None \<Rightarrow> [arguments \<mapsto> val])))))"

fun read_lines ::
  "(string \<Rightarrow> 'f option) \<Rightarrow> 'f relation list \<Rightarrow> bool \<Rightarrow> string list \<Rightarrow> ('f::one) results
     \<Rightarrow> error + 'f results" where
  "read_lines pf rels has_value [] results = Inr results"
| "read_lines pf rels has_value (l # ls) results =
     (let line = strip l
      in if line = [] then read_lines pf rels has_value ls results
         else (case read_line pf rels has_value line results of
                 Inl e \<Rightarrow> Inl e
               | Inr results' \<Rightarrow> read_lines pf rels has_value ls results'))"

definition read_results ::
  "(string \<Rightarrow> 'f option) \<Rightarrow> 'f relation list \<Rightarrow> string list \<Rightarrow> bool \<Rightarrow> error + ('f::one) results" where
  "read_results pf rels out has_value = read_lines pf rels has_value out Map.empty"

datatype 'f cell = Str string | Num 'f

definition result_row ::
  "(string list \<rightharpoonup> 'f) \<Rightarrow> 'f relation \<Rightarrow> string list \<Rightarrow> ('f::zero) cell list" where
  "result_row found relation row =
     (let key = take (arity relation) row
      in case found key of
           Some v \<Rightarrow> map Str key @ [Num v]
         | None \<Rightarrow> map Str key @ [Num 0])"

fun solve_from ::
  "('f::{zero,one}) results \<Rightarrow> 'f relation list \<Rightarrow> nat list
     \<Rightarrow> error + (nat \<times> 'f cell list list) list" where
  "solve_from raw_results rels [] = Inr []"
| "solve_from raw_results rels (i # is) =
     (if \<not> has_unobserved_data (rels ! i) then solve_from raw_results rels is
      else (case raw_results (Some i) of
              None \<Rightarrow> Inl KeyError
            | Some found \<Rightarrow>
                (case solve_from raw_results rels is of
                   Inl e \<Rightarrow> Inl e
                 | Inr rest \<Rightarrow>
                     Inr ((i, map (result_row found (rels ! i)) (unobserved_data (rels ! i)))
                          # rest))))"

definition solve ::
  "(string \<Rightarrow> 'f option) \<Rightarrow> ('f::{zero,one} \<Rightarrow> string) \<Rightarrow> (files \<Rightarrow> string list)
     \<Rightarrow> 'f relation list \<Rightarrow> 'f rule list \<Rightarrow> error + (nat \<times> 'f cell list list) list" where
  \<comment> \<open>the dictionary returned: for the position of each relation with unobserved rows, its
      result rows\<close>
  "solve pf fmt engine rels rules =
     (case prep_run pf fmt rels rules of
        Inl e \<Rightarrow> Inl e
      | Inr fs \<Rightarrow>
          (case read_results pf rels (engine fs) False of
             Inl e \<Rightarrow> Inl e
           | Inr raw_results \<Rightarrow> solve_from raw_results rels [0..<length rels]))"

section \<open>The statements in the words of the specification\<close>

text \<open>
  The definitions of this section are not part of the program: they say what the
  specification asks for, in its own words, and the theorems compare the program
  with them.
\<close>

definition underscored :: "string \<Rightarrow> string" where
  \<comment> \<open>every space of an argument is an underscore\<close>
  "underscored s = map (\<lambda>c. if c = CHR '' '' then CHR ''_'' else c) s"

definition fact_text :: "'f relation \<Rightarrow> string list \<Rightarrow> string" where
  \<comment> \<open>\<open>name(arg0, ..., argN-1)\<close> over the first \<open>arity\<close> columns of a row\<close>
  "fact_text r row = name r @ ''('' @ join '', '' (map underscored (take (arity r) row)) @ '')''"

definition weight_ok :: "(string \<Rightarrow> 'f option) \<Rightarrow> 'f relation \<Rightarrow> string list \<Rightarrow> bool" where
  \<comment> \<open>the last column of a row with an extra column is a number\<close>
  "weight_ok pf r row = (arity r < length row \<longrightarrow> pf (underscored (last row)) \<noteq> None)"

definition evidence_text ::
  "(string \<Rightarrow> 'f option) \<Rightarrow> ('f \<Rightarrow> string) \<Rightarrow> 'f relation \<Rightarrow> string list \<Rightarrow> string" where
  \<comment> \<open>the fact of a row, after its weight where the row has an extra column\<close>
  "evidence_text pf fmt r row =
     (if arity r < length row
      then fmt (the (pf (underscored (last row)))) @ '' '' @ fact_text r row
      else fact_text r row)"

definition declaration_text :: "'f relation \<Rightarrow> string" where
  \<comment> \<open>\<open>name(type1, type2, ...)\<close>, after the marker \<open>*\<close> for an observed relation\<close>
  "declaration_text r =
     (if is_observed r then ''*'' else []) @ name r @ ''('' @ join '', '' (variable_types r) @ '')''"

definition weight_value :: "('f::zero) slot \<Rightarrow> 'f" where
  \<comment> \<open>the number that \<open>"%f"\<close> formats: the weight, or \<open>0.0\<close> for \<open>False\<close>\<close>
  "weight_value w = (case w of Weight x \<Rightarrow> x | _ \<Rightarrow> 0)"

definition rule_line_text :: "('f::zero \<Rightarrow> string) \<Rightarrow> 'f relation list \<Rightarrow> 'f rule \<Rightarrow> string" where
  \<comment> \<open>\<open><weight> <rule-text>\<close> for a weighted rule, \<open><rule-text> .\<close> for a hard one\<close>
  "rule_line_text fmt rels r =
     (if is_weighted r then fmt (weight_value (weight r)) @ '' '' @ translate_rule rels (rule_text r)
      else translate_rule rels (rule_text r) @ '' .'')"

definition weights_ok :: "'f rule list \<Rightarrow> bool" where
  \<comment> \<open>no weighted rule has \<open>None\<close> for its weight\<close>
  "weights_ok rules = (\<forall>r\<in>set rules. is_weighted r \<longrightarrow> weight r \<noteq> Hard)"

definition letters :: "nat \<Rightarrow> string list" where
  \<comment> \<open>the first \<open>n\<close> letters of the alphabet, as far as it goes\<close>
  "letters n = map (\<lambda>i. [char_of (97 + i)]) [0..<min n 26]"

definition prior_text :: "('f \<Rightarrow> string) \<Rightarrow> 'f relation \<Rightarrow> string" where
  \<comment> \<open>\<open><weight> !<name>(<vars>)\<close>\<close>
  "prior_text fmt r =
     fmt (the (negative_prior_weight r)) @ '' !'' @ name r @ ''('' @ join '', '' (letters (arity r))
       @ '')''"

definition prior_variables :: "string \<Rightarrow> string list" where
  \<comment> \<open>the variables of a prior line: what stands between its parentheses, split at \<open>", "\<close>\<close>
  "prior_variables line =
     split '', '' (rstrip_chr CHR '')'' (snd (snd (partition_chr CHR ''('' line))))"

fun recase :: "'f relation list \<Rightarrow> string \<Rightarrow> string" where
  \<comment> \<open>relation by relation, in the order of their declaration: every occurrence of the
      lower-case name in the text as it stands becomes the declared name\<close>
  "recase [] t = t"
| "recase (r # rs) t = recase rs (replace (lower (name r)) (name r) t)"

definition connectives :: "string \<Rightarrow> string" where
  \<comment> \<open>\<open>&\<close> becomes \<open>,\<close>, then \<open>->\<close> becomes \<open>=>\<close>, then \<open> = \<close> becomes \<open> => \<close>\<close>
  "connectives t = replace '' = '' '' => '' (replace ''->'' ''=>'' (replace ''&'' '','' t))"

definition without_guards :: "string \<Rightarrow> string" where
  \<comment> \<open>every clause \<open>, (X != Y)\<close> is removed\<close>
  "without_guards t = re_sub_empty guard_re (length t) t"

definition predicate_of :: "string \<Rightarrow> string" where
  \<comment> \<open>the predicate of an output line: its atom is what stands before the first tab, the
      predicate what stands before the first parenthesis of the atom\<close>
  "predicate_of line = fst (partition_chr CHR ''('' (hd (split [CHR 0x09] line)))"

definition arguments_of :: "string \<Rightarrow> string list" where
  \<comment> \<open>the arguments of an output line: the rest of the atom without closing parentheses
      at its end and without quotes, split at \<open>", "\<close>\<close>
  "arguments_of line =
     split '', '' (replace [CHR 0x22] []
       (rstrip_chr CHR '')'' (snd (snd (partition_chr CHR ''('' (hd (split [CHR 0x09] line)))))))"

definition atoms :: "'f relation list \<Rightarrow> string list \<Rightarrow> (nat option \<times> string list) list" where
  \<comment> \<open>the atoms of the engine's output, one for each line that is not blank: the relation
      its predicate names (if any) and its arguments\<close>
  "atoms rels out =
     map (\<lambda>l. (find_relation rels (predicate_of (strip l)), arguments_of (strip l)))
       (filter (\<lambda>l. strip l \<noteq> []) out)"

definition unmatched :: "'f relation list \<Rightarrow> string \<Rightarrow> bool" where
  \<comment> \<open>a line with an atom whose predicate names no relation\<close>
  "unmatched rels l = (strip l \<noteq> [] \<and> find_relation rels (predicate_of (strip l)) = None)"

definition result_text ::
  "'f relation list \<Rightarrow> string list \<Rightarrow> nat \<Rightarrow> string list \<Rightarrow> ('f::{zero,one}) cell list" where
  \<comment> \<open>the result row of a query row of the relation at position \<open>i\<close>: its first \<open>arity\<close>
      columns, then \<open>1.0\<close> if the output has an atom of the relation with these arguments
      and \<open>0.0\<close> if not\<close>
  "result_text rels out i row =
     (let key = take (arity (rels ! i)) row
      in map Str key @ [Num (if (Some i, key) \<in> set (atoms rels out) then 1 else 0)])"

fun rule_lines :: "bool \<Rightarrow> string list \<Rightarrow> string list" where
  \<comment> \<open>the lines of the output that are parsed: those after the first line with the marker
      that are not blank and are no marker lines themselves (lines that contain the text of
      the marker), without the white space around them; \<open>skip\<close> says that no marker was
      seen yet\<close>
  "rule_lines skip [] = []"
| "rule_lines skip (l # ls) =
     (if contains ''WEIGHT OF LAST ITERATION'' l then rule_lines False ls
      else if skip \<or> strip l = [] then rule_lines skip ls
      else strip l # rule_lines skip ls)"

definition malformed :: "string \<Rightarrow> bool" where
  \<comment> \<open>a line that none of the three patterns matches\<close>
  "malformed line =
     (re_search prior_re line = None \<and> re_search soft_re line = None
      \<and> re_search hard_re line = None)"

definition tag :: "string \<Rightarrow> int option" where
  \<comment> \<open>the index that a line of a soft or of a hard rule carries after \<open>//\<close>, as
      \<open>int(float(...))\<close> reads it\<close>
  "tag line =
     (if re_search prior_re line \<noteq> None then None
      else case re_search soft_re line of
             Some g \<Rightarrow> (case int_float (g 2) of Inr k \<Rightarrow> Some k | Inl e \<Rightarrow> None)
           | None \<Rightarrow>
               (case re_search hard_re line of
                  Some g \<Rightarrow> (case int_float (g 1) of Inr k \<Rightarrow> Some k | Inl e \<Rightarrow> None)
                | None \<Rightarrow> None))"

definition entry :: "(string \<Rightarrow> 'f option) \<Rightarrow> string \<Rightarrow> 'f slot option" where
  \<comment> \<open>what a line of a soft or of a hard rule says of its rule: the float it starts with,
      or that the rule is hard\<close>
  "entry pf line =
     (if re_search prior_re line \<noteq> None then None
      else case re_search soft_re line of
             Some g \<Rightarrow> map_option Weight (pf (g 1))
           | None \<Rightarrow> (case re_search hard_re line of Some g \<Rightarrow> Some Hard | None \<Rightarrow> None))"

definition same_name :: "string \<Rightarrow> string \<Rightarrow> bool" where
  \<comment> \<open>two names that differ in the case of their letters at most\<close>
  "same_name a b = (lower a = lower b)"

section \<open>Auxiliary notions\<close>

definition store :: "'k \<Rightarrow> 'a \<Rightarrow> 'v \<Rightarrow> ('k \<rightharpoonup> ('a \<rightharpoonup> 'v)) \<Rightarrow> ('k \<rightharpoonup> ('a \<rightharpoonup> 'v))" where
  \<comment> \<open>what the last two statements of the loop of \<open>_read_results\<close> do to the results\<close>
  "store k a v results = results(k \<mapsto> (case results k of Some m \<Rightarrow> m(a \<mapsto> v) | None \<Rightarrow> [a \<mapsto> v]))"

definition line_value :: "(string \<Rightarrow> 'f option) \<Rightarrow> bool \<Rightarrow> string \<Rightarrow> error + ('f::one)" where
  \<comment> \<open>the value that \<open>_read_results\<close> reads for a line\<close>
  "line_value pf has_value line =
     (if has_value
      then (case split [CHR 0x09] line of
              _ # p # _ \<Rightarrow> (case pf p of None \<Rightarrow> Inl (ValueError []) | Some v \<Rightarrow> Inr v)
            | _ \<Rightarrow> Inl IndexError)
      else Inr 1)"

fun run_lines ::
  "(string \<Rightarrow> 'f option) \<Rightarrow> string list \<Rightarrow> 'f slot list \<times> 'f relation list
     \<Rightarrow> error + 'f slot list \<times> 'f relation list" where
  \<comment> \<open>the body of the loop of \<open>_parse_weights\<close>, line after line, up to the first error\<close>
  "run_lines pf [] st = Inr st"
| "run_lines pf (line # ls) st =
     (case parse_line pf line st of Inl e \<Rightarrow> Inl e | Inr st' \<Rightarrow> run_lines pf ls st')"

section \<open>Sample data\<close>

text \<open>
  The theorems hold for every float type and every pair of conversions. The examples
  take the rationals for the floats, the value of a decimal numeral for \<open>float(s)\<close> and
  six decimal places for \<open>"%f"\<close>.
\<close>

definition decimal :: "string \<Rightarrow> rat option" where
  "decimal s =
     (let neg = (take 1 s = ''-''); t = (if neg then drop 1 s else s);
          ip = takeWhile is_digit t; rest = dropWhile is_digit t; fp = drop 1 rest
      in if ip \<noteq> [] \<and> (rest = [] \<or> (take 1 rest = ''.'' \<and> fp \<noteq> [] \<and> list_all is_digit fp))
         then Some ((if neg then - 1 else 1) * (of_nat (digits_val (ip @ fp)) / 10 ^ length fp))
         else None)"

function dec :: "int \<Rightarrow> string" where
  "dec n = (if n < 10 then [char_of (48 + n)] else dec (n div 10) @ [char_of (48 + n mod 10)])"
  by pat_completeness auto
termination
  by (relation "measure nat") auto

definition six_decimals :: "rat \<Rightarrow> string" where
  "six_decimals x =
     (let m = \<lfloor>\<bar>x\<bar> * 1000000 + 1 / 2\<rfloor>; fp = dec (m mod 1000000)
      in (if x < 0 then ''-'' else []) @ dec (m div 1000000) @ ''.''
         @ replicate (6 - length fp) CHR ''0'' @ fp)"

definition city :: "rat relation" where
  "city = \<lparr>name = ''City'', arity = 1, variable_types = [''place''],
     observed_data = [[''New York'', ''0.5''], [''Los Angeles'']],
     unobserved_data = [[''San Jose'', ''ignored'']], is_observed = False,
     negative_prior_weight = None\<rparr>"

definition friends :: "rat relation" where
  "friends = \<lparr>name = ''Friends'', arity = 2, variable_types = [''person'', ''person''],
     observed_data = [[''anna'', ''bob'']], unobserved_data = [], is_observed = True,
     negative_prior_weight = None\<rparr>"

definition smokes :: "rat relation" where
  "smokes = \<lparr>name = ''Smokes'', arity = 1, variable_types = [''person''],
     observed_data = [], unobserved_data = [[''anna''], [''bob'']], is_observed = False,
     negative_prior_weight = Some (1 / 2)\<rparr>"

definition wide :: "rat relation" where
  "wide = \<lparr>name = ''Wide'', arity = 27, variable_types = [], observed_data = [],
     unobserved_data = [], is_observed = False, negative_prior_weight = Some (1 / 2)\<rparr>"

definition peer_rule :: "rat rule" where
  "peer_rule = \<lparr>rule_text = ''Friends(A, B) & Smokes(A) -> Smokes(B)'', weight = Weight (3 / 2),
     is_weighted = True\<rparr>"

definition symmetry_rule :: "rat rule" where
  "symmetry_rule = \<lparr>rule_text = ''Friends(A, B) = Friends(B, A)'', weight = Hard,
     is_weighted = False\<rparr>"

definition best_friends :: "rat relation" where
  "best_friends = \<lparr>name = ''BestFriends'', arity = 2, variable_types = [''person'', ''person''],
     observed_data = [], unobserved_data = [[''anna'', ''bob'']], is_observed = False,
     negative_prior_weight = None\<rparr>"

definition map_engine :: "files \<Rightarrow> string list" where
  \<comment> \<open>an engine that reports an atom for Anna, with a probability after it, and one of a
      relation that is not declared\<close>
  "map_engine fs = [''SMOKES(\"anna\")'' @ [CHR 0x09] @ ''0.73'' @ [CHR 0x0A], [CHR 0x0A], ''Cancer(anna)'' @ [CHR 0x0A]]"


definition broken_output :: "string list" where
  \<comment> \<open>an output with a line that lacks its index\<close>
  "broken_output =
     [''WEIGHT OF LAST ITERATION'' @ [CHR 0x0A],
      ''1.75 Smokes(a) //1.0'' @ [CHR 0x0A],
      ''1.75 Smokes(a)'' @ [CHR 0x0A]]"


definition marker_twice :: "string list" where
  \<comment> \<open>an output whose second line holds the text of the marker again, and no rule\<close>
  "marker_twice =
     [''WEIGHT OF LAST ITERATION'' @ [CHR 0x0A],
      ''no rule: WEIGHT OF LAST ITERATION'' @ [CHR 0x0A]]"

definition index_zero_output :: "string list" where
  \<comment> \<open>an output with a line of the index 0\<close>
  "index_zero_output =
     [''WEIGHT OF LAST ITERATION'' @ [CHR 0x0A],
      ''0.5 x //0.0'' @ [CHR 0x0A]]"

section \<open>Verified properties\<close>

subsection \<open>Evidence and query files\<close>

lemma replace_ne_chr: "replace_ne [a] [b] s = map (\<lambda>c. if c = a then b else c) s"
  by (induction s) auto

lemma replace_space: "replace '' '' ''_'' s = underscored s"
  by (simp add: replace_def underscored_def replace_ne_chr)

lemma last_underscored: "arity r < length row \<Longrightarrow> last (map underscored row) = underscored (last row)"
  by (cases row) (auto simp: last_map)

lemma underscore_spaces_eq: "underscore_spaces row = map underscored row"
  by (simp add: underscore_spaces_def replace_space)

lemma fact_underscored: "fact r (underscore_spaces row) = fact_text r row"
  by (simp add: fact_def fact_text_def underscore_spaces_eq take_map)

lemma query_line_eq: "query_line r row = fact_text r row"
  by (simp add: query_line_def fact_underscored)

lemma write_query_eq:
  "write_query rels = concat (map (\<lambda>r. map (fact_text r) (unobserved_data r)) rels)"
  by (induction rels) (simp_all add: has_unobserved_data_def query_line_eq cong: map_cong)

lemma collect_all_Inr: "(\<And>x. x \<in> set xs \<Longrightarrow> f x = Inr (g x)) \<Longrightarrow> collect f xs = Inr (map g xs)"
  by (induction xs) simp_all

lemma collect_err_mem: "collect f xs = Inl e \<Longrightarrow> \<exists>x\<in>set xs. f x = Inl e"
  by (induction xs) (auto split: sum.splits)

lemma collect_some_Inl:
  "x \<in> set xs \<Longrightarrow> f x = Inl e \<Longrightarrow> (\<And>y e'. y \<in> set xs \<Longrightarrow> f y = Inl e' \<Longrightarrow> e' = e)
    \<Longrightarrow> collect f xs = Inl e"
proof (induction xs)
  case Nil
  then show ?case by simp
next
  case (Cons a xs)
  show ?case
  proof (cases "f a")
    case (Inl e')
    with Cons.prems(3)[of a e'] show ?thesis by simp
  next
    case (Inr y)
    with Cons.prems have "x \<in> set xs" by auto
    from Cons.IH[OF this Cons.prems(2)] Cons.prems(3) have "collect f xs = Inl e" by auto
    with Inr show ?thesis by simp
  qed
qed

lemma evidence_line_eq:
  "evidence_line pf fmt r row =
     (if arity r < length row
      then (case pf (underscored (last row)) of
              None \<Rightarrow> Inl (ValueError [])
            | Some w \<Rightarrow> Inr (fmt w @ '' '' @ fact_text r row))
      else Inr (fact_text r row))"
proof -
  have len: "length (underscore_spaces row) = length row"
    by (simp add: underscore_spaces_eq)
  have lst: "last (underscore_spaces row) = underscored (last row)" if "arity r < length row"
    using that by (simp add: underscore_spaces_eq last_underscored)
  show ?thesis
    unfolding evidence_line_def Let_def len fact_underscored
    by (simp add: lst)
qed

lemma evidence_line_ok:
  "weight_ok pf r row \<Longrightarrow> evidence_line pf fmt r row = Inr (evidence_text pf fmt r row)"
  by (auto simp: evidence_line_eq weight_ok_def evidence_text_def)

lemma evidence_line_bad:
  "\<not> weight_ok pf r row \<Longrightarrow> evidence_line pf fmt r row = Inl (ValueError [])"
  by (auto simp: evidence_line_eq weight_ok_def)

lemma evidence_line_err: "evidence_line pf fmt r row = Inl e \<Longrightarrow> e = ValueError []"
  by (auto simp: evidence_line_def Let_def split: option.splits if_splits)

lemma write_evidence_ok:
  "(\<And>r row. r \<in> set rels \<Longrightarrow> row \<in> set (observed_data r) \<Longrightarrow> weight_ok pf r row) \<Longrightarrow>
   write_evidence pf fmt rels =
     Inr (concat (map (\<lambda>r. map (evidence_text pf fmt r) (observed_data r)) rels))"
proof (induction rels)
  case Nil
  then show ?case by simp
next
  case (Cons r rels)
  have "collect (evidence_line pf fmt r) (observed_data r)
          = Inr (map (evidence_text pf fmt r) (observed_data r))"
    by (rule collect_all_Inr) (simp add: evidence_line_ok Cons.prems)
  moreover have "write_evidence pf fmt rels =
     Inr (concat (map (\<lambda>r. map (evidence_text pf fmt r) (observed_data r)) rels))"
    by (rule Cons.IH) (simp add: Cons.prems)
  ultimately show ?case by (simp add: has_observed_data_def)
qed

lemma write_evidence_err: "write_evidence pf fmt rels = Inl e \<Longrightarrow> e = ValueError []"
proof (induction rels)
  case Nil
  then show ?case by simp
next
  case (Cons r rels)
  show ?case
  proof (cases "collect (evidence_line pf fmt r) (observed_data r)")
    case (Inl e')
    have "e' = ValueError []" if "collect f xs = Inl e'" "\<And>x e. f x = Inl e \<Longrightarrow> e = ValueError []"
      for f :: "string list \<Rightarrow> error + string" and xs
      using that by (induction xs) (auto split: sum.splits)
    from this[OF Inl] have "e' = ValueError []" by (simp add: evidence_line_err)
    with Cons Inl show ?thesis by (auto split: if_splits sum.splits)
  next
    case (Inr ls)
    with Cons show ?thesis by (auto split: if_splits sum.splits)
  qed
qed

lemma write_evidence_bad:
  "r \<in> set rels \<Longrightarrow> row \<in> set (observed_data r) \<Longrightarrow> \<not> weight_ok pf r row \<Longrightarrow>
   write_evidence pf fmt rels = Inl (ValueError [])"
proof (induction rels)
  case Nil
  then show ?case by simp
next
  case (Cons a rels)
  show ?case
  proof (cases "r = a")
    case True
    have "collect (evidence_line pf fmt a) (observed_data a) = Inl (ValueError [])"
      using Cons.prems True
      by (intro collect_some_Inl[where x = row]) (auto simp: evidence_line_bad dest: evidence_line_err)
    moreover have "observed_data a \<noteq> []" using Cons.prems True by auto
    ultimately show ?thesis by (simp add: has_observed_data_def)
  next
    case False
    with Cons have "write_evidence pf fmt rels = Inl (ValueError [])" by auto
    moreover have "e' = ValueError []" if "collect (evidence_line pf fmt a) (observed_data a) = Inl e'" for e'
      using collect_err_mem[OF that] by (auto dest: evidence_line_err)
    ultimately show ?thesis by (auto split: sum.splits)
  qed
qed

text \<open>
  C7. The query file holds, relation by relation and row by row, one fact
  \<open>name(arg0, ..., argN-1)\<close> for each unobserved row, over the first \<open>arity\<close> columns and
  with every space of an argument turned into an underscore. The evidence file holds the
  same for the observed rows, and exactly a row with more columns than the arity has its
  last column read as a number and put in front of the fact. The evidence writer raises
  \<open>ValueError\<close> when such a last column (its spaces turned into underscores, like those
  of every column) is not a number.
\<close>

theorem evidence_and_query_lines:
  "write_query rels = concat (map (\<lambda>r. map (fact_text r) (unobserved_data r)) rels)
   \<and> ((\<forall>r\<in>set rels. \<forall>row\<in>set (observed_data r). weight_ok pf r row) \<longrightarrow>
        write_evidence pf fmt rels =
          Inr (concat (map (\<lambda>r. map (evidence_text pf fmt r) (observed_data r)) rels)))
   \<and> (\<not> (\<forall>r\<in>set rels. \<forall>row\<in>set (observed_data r). weight_ok pf r row) \<longrightarrow>
        write_evidence pf fmt rels = Inl (ValueError []))"
  using write_query_eq write_evidence_ok[of rels pf fmt] write_evidence_bad[of _ rels _ pf fmt]
  by blast


theorem evidence_and_query_lines_witness:
  "write_evidence decimal six_decimals [city]
       = Inr [''0.500000 City(New_York)'', ''City(Los_Angeles)'']
   \<and> write_query [city :: rat relation] = [''City(San_Jose)'']"
proof -
  have ok: "\<forall>r\<in>set [city]. \<forall>row\<in>set (observed_data r). weight_ok decimal r row"
    by code_simp
  have ev: "concat (map (\<lambda>r. map (evidence_text decimal six_decimals r) (observed_data r)) [city])
      = [''0.500000 City(New_York)'', ''City(Los_Angeles)'']"
    by code_simp
  have qu: "concat (map (\<lambda>r. map (fact_text r) (unobserved_data r)) [city :: rat relation])
      = [''City(San_Jose)'']"
    by code_simp
  from evidence_and_query_lines[of "[city]" decimal six_decimals] ok ev qu
  show ?thesis by simp
qed

subsection \<open>Program file\<close>

lemma declaration_line_eq: "declaration_line r = declaration_text r"
  by (simp add: declaration_line_def declaration_text_def Let_def)

lemma rule_line_eq:
  "rule_line fmt rels r =
     (if is_weighted r \<and> weight r = Hard then Inl TypeError else Inr (rule_line_text fmt rels r))"
  by (simp add: rule_line_def rule_line_text_def format_weight_def weight_value_def Let_def
      split: slot.splits)

lemma alphabet_letters: "map (\<lambda>v. [v]) ascii_lowercase = letters 26"
  unfolding letters_def ascii_lowercase_def by code_simp

lemma take_letters: "map (\<lambda>v. [v]) (take n ascii_lowercase) = letters n"
proof -
  have "map (\<lambda>v. [v]) (take n ascii_lowercase) = take n (map (\<lambda>v. [v]) ascii_lowercase)"
    by (simp add: take_map)
  also have "\<dots> = take n (letters 26)"
    by (simp only: alphabet_letters)
  also have "\<dots> = letters n"
    by (simp add: letters_def take_map min_def)
  finally show ?thesis .
qed

lemma prior_line_eq:
  "has_negative_prior_weight r \<Longrightarrow> prior_line fmt r = Inr (prior_text fmt r)"
  by (auto simp: prior_line_def prior_text_def has_negative_prior_weight_def take_letters Let_def)

lemma fold_or: "fold (\<lambda>r b. b \<or> P r) xs b0 = (b0 \<or> (\<exists>r\<in>set xs. P r))"
  by (induction xs arbitrary: b0) auto

lemma collect_rule_lines_ok:
  "weights_ok rules \<Longrightarrow> collect (rule_line fmt rels) rules = Inr (map (rule_line_text fmt rels) rules)"
  by (rule collect_all_Inr) (auto simp: rule_line_eq weights_ok_def)

lemma collect_rule_lines_bad:
  "\<not> weights_ok rules \<Longrightarrow> collect (rule_line fmt rels) rules = Inl TypeError"
proof -
  assume "\<not> weights_ok rules"
  then obtain r where "r \<in> set rules" "is_weighted r" "weight r = Hard"
    by (auto simp: weights_ok_def)
  then show ?thesis
    by (intro collect_some_Inl[where x = r]) (auto simp: rule_line_eq split: if_splits)
qed

lemma collect_prior_lines:
  "collect (prior_line fmt) (filter has_negative_prior_weight rels)
     = Inr (map (prior_text fmt) (filter has_negative_prior_weight rels))"
  by (rule collect_all_Inr) (simp add: prior_line_eq)

lemma write_program_eq:
  "write_program fmt rels rules =
     (if weights_ok rules
      then Inr (map declaration_text rels @ [[]] @ map (rule_line_text fmt rels) rules
                @ (if \<exists>r\<in>set rels. has_negative_prior_weight r
                   then [] # map (prior_text fmt) (filter has_negative_prior_weight rels)
                   else []))
      else Inl TypeError)"
  by (simp add: write_program_def Let_def fold_or collect_rule_lines_ok collect_rule_lines_bad
      collect_prior_lines declaration_line_eq cong: map_cong)

text \<open>
  C8. The program file starts with one declaration \<open>name(type1, type2, ...)\<close> for each
  relation, in their order, with the marker \<open>*\<close> in front exactly for an observed
  relation; then comes one empty line; then one line for each rule, in their order:
  \<open><weight> <rule-text>\<close> for a weighted rule and \<open><rule-text> .\<close> for a hard one. (A
  weighted rule whose weight is \<open>None\<close> cannot be formatted: the writer raises
  \<open>TypeError\<close>.)
\<close>

theorem program_declarations_and_rules:
  "(weights_ok rules \<longrightarrow>
      (\<exists>tail. write_program fmt rels rules =
         Inr (map declaration_text rels @ [[]] @ map (rule_line_text fmt rels) rules @ tail)))
   \<and> (\<not> weights_ok rules \<longrightarrow> write_program fmt rels rules = Inl TypeError)"
  by (simp add: write_program_eq)

theorem program_declarations_and_rules_witness:
  "\<exists>tail. write_program six_decimals [friends, smokes] [peer_rule, symmetry_rule] =
     Inr ([''*Friends(person, person)'', ''Smokes(person)'', [],
           ''1.500000 Friends(a, b) , Smokes(a) => Smokes(b)'',
           ''Friends(a, b) => Friends(b, a) .''] @ tail)"
proof -
  have ok: "weights_ok [peer_rule, symmetry_rule]"
    by code_simp
  have ls: "map declaration_text [friends, smokes] @ [[]]
      @ map (rule_line_text six_decimals [friends, smokes]) [peer_rule, symmetry_rule]
    = [''*Friends(person, person)'', ''Smokes(person)'', [],
       ''1.500000 Friends(a, b) , Smokes(a) => Smokes(b)'',
       ''Friends(a, b) => Friends(b, a) .'']"
    by code_simp
  from program_declarations_and_rules[of "[peer_rule, symmetry_rule]" six_decimals "[friends, smokes]"] ok
  obtain tail where "write_program six_decimals [friends, smokes] [peer_rule, symmetry_rule] =
         Inr (map declaration_text [friends, smokes] @ [[]]
              @ map (rule_line_text six_decimals [friends, smokes]) [peer_rule, symmetry_rule] @ tail)"
    by blast
  with ls show ?thesis by (metis append.assoc)
qed

lemma letters_props:
  "length (letters n) = min n 26 \<and> distinct (letters n)
   \<and> (\<forall>i<min n 26. letters n ! i = [char_of (97 + i)])"
proof -
  have "inj_on (\<lambda>i::nat. [char_of (97 + i) :: char]) {0..<min n 26}"
  proof (rule inj_onI)
    fix i j :: nat
    assume "i \<in> {0..<min n 26}" "j \<in> {0..<min n 26}" "[char_of (97 + i) :: char] = [char_of (97 + j)]"
    then have "(97 + i) mod 256 = (97 + j) mod 256" "i < 26" "j < 26" by auto
    then show "i = j" by simp
  qed
  then have "distinct (letters n)"
    by (simp add: letters_def distinct_map)
  then show ?thesis by (simp add: letters_def)
qed

text \<open>
  C9, as amended. After the declarations, the empty line and the rules, the program file
  goes on if and only if some relation has a negative prior weight: with one more empty
  line and one line \<open><weight> !<name>(<vars>)\<close> for each such relation, where \<open><vars>\<close>
  are the first letters of the alphabet, distinct, one for each column up to the
  twenty-sixth: their number is the smaller of the arity and 26.
\<close>

theorem program_priors:
  "(weights_ok rules \<longrightarrow>
      (\<exists>head. length head = length rels + 1 + length rules
          \<and> write_program fmt rels rules =
              Inr (head @ (if \<exists>r\<in>set rels. has_negative_prior_weight r
                           then [] # map (prior_text fmt) (filter has_negative_prior_weight rels)
                           else []))))
   \<and> length (letters n) = min n 26 \<and> distinct (letters n)
   \<and> (\<forall>i<min n 26. letters n ! i = [char_of (97 + i)])"
proof -
  have "\<exists>head. length head = length rels + 1 + length rules
          \<and> write_program fmt rels rules =
              Inr (head @ (if \<exists>r\<in>set rels. has_negative_prior_weight r
                           then [] # map (prior_text fmt) (filter has_negative_prior_weight rels)
                           else []))" if "weights_ok rules"
    using that
    by (intro exI[where x = "map declaration_text rels @ [[]] @ map (rule_line_text fmt rels) rules"])
       (simp add: write_program_eq)
  with letters_props[of n] show ?thesis by blast
qed

theorem program_priors_witness:
  "\<exists>head. length head = 5
     \<and> write_program six_decimals [friends, smokes] [peer_rule, symmetry_rule] =
         Inr (head @ [[], ''0.500000 !Smokes(a)''])"
proof -
  have ok: "weights_ok [peer_rule, symmetry_rule]"
    by code_simp
  have ex: "\<exists>r\<in>set [friends, smokes]. has_negative_prior_weight r"
    by code_simp
  have ls: "map (prior_text six_decimals) (filter has_negative_prior_weight [friends, smokes])
      = [''0.500000 !Smokes(a)'']"
    by code_simp
  from program_priors[of "[peer_rule, symmetry_rule]" "[friends, smokes]" six_decimals] ok
  obtain head where
    len: "length head = length [friends, smokes] + 1 + length [peer_rule, symmetry_rule]" and
    wp: "write_program six_decimals [friends, smokes] [peer_rule, symmetry_rule] =
           Inr (head @ (if \<exists>r\<in>set [friends, smokes]. has_negative_prior_weight r
                        then [] # map (prior_text six_decimals)
                                    (filter has_negative_prior_weight [friends, smokes])
                        else []))"
    by blast
  from len have "length head = 5" by simp
  moreover from wp have "write_program six_decimals [friends, smokes] [peer_rule, symmetry_rule] =
           Inr (head @ [[], ''0.500000 !Smokes(a)''])"
    by (simp only: ex ls if_True)
  ultimately show ?thesis by blast
qed

text \<open>
  The claim as it was stated fails for a relation of 27 columns: its prior line has 26
  variables.
\<close>

theorem program_priors_counterexample:
  "write_program six_decimals [wide] [] =
     Inr [''Wide()'', [], [],
          ''0.500000 !Wide(a, b, c, d, e, f, g, h, i, j, k, l, m, n, o, p, q, r, s, t, u, v, w, x, y, z)'']
   \<and> length (prior_variables
        ''0.500000 !Wide(a, b, c, d, e, f, g, h, i, j, k, l, m, n, o, p, q, r, s, t, u, v, w, x, y, z)'') = 26
   \<and> arity wide = 27"
  by code_simp

subsection \<open>Rule texts\<close>

lemma of_char_lower_char:
  "(of_char (lower_char c) :: nat) =
     (if 65 \<le> (of_char c :: nat) \<and> (of_char c :: nat) \<le> 90 then of_char c + 32 else of_char c)"
  by (simp add: lower_char_def Let_def)

lemma lower_char_idem: "lower_char (lower_char c) = lower_char c"
proof -
  define n where "n = (of_char c :: nat)"
  have "(of_char (lower_char (lower_char c)) :: nat) = of_char (lower_char c)"
    unfolding of_char_lower_char n_def[symmetric] by simp
  then show ?thesis by (simp only: of_char_eq_iff)
qed

lemma lower_idem: "lower (lower s) = lower s"
  by (simp add: lower_def lower_char_idem)

lemma lower_append: "lower (a @ b) = lower a @ lower b"
  by (simp add: lower_def)

lemma lower_replace_ne:
  "lower new = old \<Longrightarrow> lower old = old \<Longrightarrow> lower (replace_ne old new t) = lower t"
proof (induction old new t rule: replace_ne.induct)
  case (1 old new)
  then show ?case by simp
next
  case (2 old new c cs)
  show ?case
  proof (cases "old \<noteq> [] \<and> prefix old (c # cs)")
    case True
    then obtain rest where rest: "c # cs = old @ rest"
      by (auto simp: prefix_def)
    then have dr: "drop (length old) (c # cs) = rest" by simp
    from True 2 have "lower (replace_ne old new (drop (length old) (c # cs)))
        = lower (drop (length old) (c # cs))" by simp
    then have "lower (replace_ne old new (c # cs)) = old @ lower rest"
      using True 2 dr by (simp add: lower_append)
    also have "\<dots> = lower (c # cs)"
      unfolding rest using 2 by (simp add: lower_append)
    finally show ?thesis .
  next
    case False
    with 2 show ?thesis by (auto simp: lower_def)
  qed
qed

lemma lower_replace_name: "lower (replace (lower n) n t) = lower t"
proof (cases "n = []")
  case True
  then show ?thesis by (simp add: replace_def lower_def o_def)
next
  case False
  then have "lower n \<noteq> []" by (simp add: lower_def)
  then show ?thesis by (simp add: replace_def lower_replace_ne lower_idem)
qed

lemma lower_recase: "lower (recase rels t) = lower t"
  by (induction rels arbitrary: t) (simp_all add: lower_replace_name)

lemma fold_recase:
  "fold (\<lambda>relation rule. replace (lower (name relation)) (name relation) rule) rels t = recase rels t"
  by (induction rels arbitrary: t) simp_all

text \<open>
  The text of a rule is emitted with \<open>&\<close> replaced by \<open>,\<close>, \<open>->\<close> by \<open>=>\<close> and
  \<open> = \<close> by \<open> => \<close>, with every clause \<open>, (X != Y)\<close> removed, then turned to lower
  case, and then, for each relation in the order of declaration, with every occurrence of
  the relation's lower-case name, in the text as it stands by then, replaced by the
  declared name. This last pass changes the case of letters and nothing else.
\<close>

lemma rule_text_translation:
  "translate_rule rels txt = recase rels (lower (without_guards (connectives txt)))
   \<and> lower (translate_rule rels txt) = lower (without_guards (connectives txt))"
  by (simp add: translate_rule_def Let_def fold_recase connectives_def without_guards_def
      lower_recase lower_idem)

text \<open>
  C5. After the replacements and the lower case, the names of the relations are to stand
  in the emitted text in their declared form, none of them corrupted. The code does not
  achieve this where the name of a relation contains the name of a relation declared
  before it: with \<open>Friends\<close> declared before \<open>BestFriends\<close>, the replacement of \<open>friends\<close>
  also rewrites the inside of \<open>bestfriends\<close>, the replacement of \<open>bestfriends\<close> then finds
  nothing, and the name \<open>BestFriends\<close> is emitted as \<open>bestFriends\<close>.
\<close>

theorem relation_name_corrupted:
  "translate_rule [friends, best_friends] ''BestFriends(A, B) & (A != B) -> Friends(B, A)''
     = ''bestFriends(a, b)  => Friends(b, a)''
   \<and> \<not> contains (name best_friends)
         (translate_rule [friends, best_friends] ''BestFriends(A, B) & (A != B) -> Friends(B, A)'')"
  by code_simp

subsection \<open>Inference results\<close>

lemma read_line_eq:
  "read_line pf rels has_value line results =
     (case line_value pf has_value line of
        Inl e \<Rightarrow> Inl e
      | Inr v \<Rightarrow> Inr (store (find_relation rels (predicate_of line)) (arguments_of line) v results))"
proof -
  obtain p s a where part: "partition_chr CHR ''('' (hd (split [CHR 0x09] line)) = (p, s, a)"
    by (cases "partition_chr CHR ''('' (hd (split [CHR 0x09] line))") auto
  show ?thesis
    unfolding read_line_def line_value_def Let_def predicate_of_def arguments_of_def part store_def
    by (auto split: sum.splits option.splits list.splits)
qed

lemma read_lines_no_value:
  "read_lines pf rels False ls results =
     Inr (fold (\<lambda>(k, a). store k a 1) (atoms rels ls) results)"
  by (induction ls arbitrary: results)
     (simp_all add: atoms_def Let_def read_line_eq line_value_def)

lemma fold_store:
  "fold (\<lambda>(k, a). store k a v) kas results k =
     (if k \<in> fst ` set kas
      then Some (\<lambda>a. if (k, a) \<in> set kas then Some v
                      else (case results k of Some f \<Rightarrow> f a | None \<Rightarrow> None))
      else results k)"
proof (induction kas arbitrary: results)
  case Nil
  then show ?case by simp
next
  case (Cons ka kas)
  obtain k' a' where ka: "ka = (k', a')" by (cases ka)
  show ?case
    unfolding ka
    by (simp add: Cons.IH) (auto simp: store_def fun_eq_iff image_iff split: option.splits)
qed

lemma read_results_no_value:
  "read_results pf rels out False =
     Inr (\<lambda>k. if k \<in> fst ` set (atoms rels out)
               then Some (\<lambda>a. if (k, a) \<in> set (atoms rels out) then Some 1 else None)
               else None)"
  by (simp add: read_results_def read_lines_no_value fold_store fun_eq_iff)

lemma solve_from_ok:
  "(\<And>i. i \<in> set is \<Longrightarrow> has_unobserved_data (rels ! i) \<Longrightarrow> raw (Some i) = Some (found i)) \<Longrightarrow>
   solve_from raw rels is =
     Inr (map (\<lambda>i. (i, map (result_row (found i) (rels ! i)) (unobserved_data (rels ! i))))
            (filter (\<lambda>i. has_unobserved_data (rels ! i)) is))"
  by (induction "is") simp_all

lemma solve_from_missing:
  "i \<in> set is \<Longrightarrow> has_unobserved_data (rels ! i) \<Longrightarrow> raw (Some i) = None \<Longrightarrow>
   solve_from raw rels is = Inl KeyError"
proof (induction "is")
  case Nil
  then show ?case by simp
next
  case (Cons j js)
  have err: "e = KeyError" if "solve_from raw rels ks = Inl e" for ks e
    using that by (induction ks arbitrary: e) (auto split: if_splits option.splits sum.splits)
  show ?case
  proof (cases "i = j")
    case True
    with Cons.prems show ?thesis by simp
  next
    case False
    with Cons have "solve_from raw rels js = Inl KeyError" by simp
    then show ?thesis by (simp split: option.splits)
  qed
qed

text \<open>
  C1, as amended. \<open>solve\<close> reads the output of the engine without values: an atom that
  the output lists stands for \<open>1.0\<close>, whatever follows it on its line. When the input
  files can be written and the output lists at least one atom of every relation that has
  unobserved rows, \<open>solve\<close> returns, for each such relation and in their order, one result
  row for each of its unobserved rows: the first \<open>arity\<close> columns of the row, followed by
  \<open>1.0\<close> if the output lists an atom of the relation with these arguments, and by \<open>0.0\<close>
  if it does not.
\<close>

theorem solve_rows:
  assumes "prep_run pf fmt rels rules = Inr fs"
    and "\<forall>i<length rels. unobserved_data (rels ! i) \<noteq> [] \<longrightarrow> Some i \<in> fst ` set (atoms rels (engine fs))"
  shows "solve pf fmt engine rels rules =
     Inr (map (\<lambda>i. (i, map (result_text rels (engine fs) i) (unobserved_data (rels ! i))))
            (filter (\<lambda>i. unobserved_data (rels ! i) \<noteq> []) [0..<length rels]))"
proof -
  let ?out = "engine fs"
  let ?raw = "\<lambda>k. if k \<in> fst ` set (atoms rels ?out)
               then Some (\<lambda>a. if (k, a) \<in> set (atoms rels ?out) then Some (1::'a) else None)
               else None"
  let ?found = "\<lambda>i a. if (Some i, a) \<in> set (atoms rels ?out) then Some (1::'a) else None"
  have "solve_from ?raw rels [0..<length rels] =
     Inr (map (\<lambda>i. (i, map (result_row (?found i) (rels ! i)) (unobserved_data (rels ! i))))
            (filter (\<lambda>i. has_unobserved_data (rels ! i)) [0..<length rels]))"
    using assms(2) by (intro solve_from_ok) (auto simp: has_unobserved_data_def)
  moreover have "result_row (?found i) (rels ! i) row = result_text rels ?out i row" for i row
    by (simp add: result_row_def result_text_def Let_def)
  ultimately show ?thesis
    using assms(1)
    by (simp add: solve_def read_results_no_value has_unobserved_data_def cong: map_cong)
qed

theorem solve_rows_witness:
  "solve decimal six_decimals map_engine [friends, smokes] [] =
     Inr [(1, [[Str ''anna'', Num 1], [Str ''bob'', Num 0]])]"
proof -
  obtain fs where fs: "prep_run decimal six_decimals [friends, smokes] ([] :: rat rule list) = Inr fs"
    by (cases "prep_run decimal six_decimals [friends, smokes] ([] :: rat rule list)") (simp_all, code_simp)
  have at: "Some 1 \<in> fst ` set (atoms [friends, smokes :: rat relation] (map_engine fs))"
    unfolding map_engine_def by code_simp
  have un: "unobserved_data (friends :: rat relation) = []"
    by code_simp
  have hyp: "\<forall>i<length [friends, smokes :: rat relation]. unobserved_data ([friends, smokes :: rat relation] ! i) \<noteq> []
      \<longrightarrow> Some i \<in> fst ` set (atoms [friends, smokes :: rat relation] (map_engine fs))"
    using at un by (auto simp: less_Suc_eq)
  have rhs: "map (\<lambda>i. (i, map (result_text [friends, smokes] (map_engine fs) i) (unobserved_data ([friends, smokes] ! i))))
            (filter (\<lambda>i. unobserved_data ([friends, smokes :: rat relation] ! i) \<noteq> []) [0..<length [friends, smokes :: rat relation]])
       = [(1, [[Str ''anna'', Num (1::rat)], [Str ''bob'', Num 0]])]"
    unfolding map_engine_def by code_simp
  from solve_rows[where engine = map_engine, OF fs hyp] rhs show ?thesis by simp
qed

text \<open>
  The claim as it was stated fails where the output gives a probability: the engine
  reports \<open>0.73\<close> for Anna, and \<open>solve\<close> returns \<open>1.0\<close> for her.
\<close>

theorem solve_rows_counterexample:
  "solve decimal six_decimals map_engine [friends, smokes] [] =
     Inr [(1, [[Str ''anna'', Num 1], [Str ''bob'', Num 0]])]
   \<and> decimal ''0.73'' = Some (73 / 100)"
  by code_simp

lemma store_keeps:
  "results k = Some f \<Longrightarrow> f a \<noteq> None \<Longrightarrow>
   \<exists>f'. store k' a' v results k = Some f' \<and> f' a \<noteq> None"
  by (auto simp: store_def)

lemma store_records: "\<exists>f. store k a v results k = Some f \<and> f a \<noteq> None"
  by (auto simp: store_def split: option.splits)

lemma read_lines_keeps:
  "read_lines pf rels hv ls r = Inr m \<Longrightarrow> r k = Some f \<Longrightarrow> f a \<noteq> None \<Longrightarrow>
   \<exists>f'. m k = Some f' \<and> f' a \<noteq> None"
proof (induction ls arbitrary: r f)
  case Nil
  then show ?case by simp
next
  case (Cons l ls)
  show ?case
  proof (cases "strip l = []")
    case True
    with Cons show ?thesis by simp
  next
    case False
    with Cons.prems(1) obtain v where
      v: "line_value pf hv (strip l) = Inr v" and
      rest: "read_lines pf rels hv ls
               (store (find_relation rels (predicate_of (strip l))) (arguments_of (strip l)) v r) = Inr m"
      by (auto simp: Let_def read_line_eq split: sum.splits)
    from store_keeps[of r k f a, OF Cons.prems(2,3)] obtain f' where
      "store (find_relation rels (predicate_of (strip l))) (arguments_of (strip l)) v r k = Some f'"
      "f' a \<noteq> None"
      by blast
    from Cons.IH[OF rest this] show ?thesis .
  qed
qed

lemma read_lines_records:
  "l \<in> set ls \<Longrightarrow> strip l \<noteq> [] \<Longrightarrow> read_lines pf rels hv ls r = Inr m \<Longrightarrow>
   \<exists>f. m (find_relation rels (predicate_of (strip l))) = Some f \<and> f (arguments_of (strip l)) \<noteq> None"
proof (induction ls arbitrary: r)
  case Nil
  then show ?case by simp
next
  case (Cons x ls)
  show ?case
  proof (cases "strip x = []")
    case True
    with Cons show ?thesis by auto
  next
    case False
    with Cons.prems(3) obtain v where
      v: "line_value pf hv (strip x) = Inr v" and
      rest: "read_lines pf rels hv ls
               (store (find_relation rels (predicate_of (strip x))) (arguments_of (strip x)) v r) = Inr m"
      by (auto simp: Let_def read_line_eq split: sum.splits)
    show ?thesis
    proof (cases "l = x")
      case True
      from store_records[of "find_relation rels (predicate_of (strip l))" "arguments_of (strip l)" v r]
      obtain f where
        "store (find_relation rels (predicate_of (strip l))) (arguments_of (strip l)) v r
           (find_relation rels (predicate_of (strip l))) = Some f"
        "f (arguments_of (strip l)) \<noteq> None"
        by blast
      with read_lines_keeps[OF rest[folded True]] show ?thesis by blast
    next
      case False
      with Cons.prems have "l \<in> set ls" by simp
      from Cons.IH[OF this Cons.prems(2) rest] show ?thesis .
    qed
  qed
qed

lemma read_lines_filter:
  "read_lines pf rels hv ls r1 = Inr m \<Longrightarrow> (\<And>i. r1 (Some i) = r2 (Some i)) \<Longrightarrow>
   \<exists>m'. read_lines pf rels hv (filter (\<lambda>l. \<not> unmatched rels l) ls) r2 = Inr m'
      \<and> (\<forall>i. m' (Some i) = m (Some i))"
proof (induction ls arbitrary: r1 r2)
  case Nil
  then show ?case by simp
next
  case (Cons l ls)
  show ?case
  proof (cases "strip l = []")
    case True
    with Cons.prems(1) have "read_lines pf rels hv ls r1 = Inr m" by simp
    from Cons.IH[OF this Cons.prems(2)] True show ?thesis
      by (simp add: unmatched_def)
  next
    case False
    let ?k = "find_relation rels (predicate_of (strip l))"
    let ?a = "arguments_of (strip l)"
    from False Cons.prems(1) obtain v where
      v: "line_value pf hv (strip l) = Inr v" and
      rest: "read_lines pf rels hv ls (store ?k ?a v r1) = Inr m"
      by (auto simp: Let_def read_line_eq split: sum.splits)
    show ?thesis
    proof (cases "?k")
      case None
      have "store ?k ?a v r1 (Some i) = r2 (Some i)" for i
        using Cons.prems(2)[of i] None by (simp add: store_def)
      from Cons.IH[OF rest this] False None show ?thesis
        by (simp add: unmatched_def)
    next
      case (Some j)
      have "store ?k ?a v r1 (Some i) = store ?k ?a v r2 (Some i)" for i
        using Cons.prems(2)[of i] Cons.prems(2)[of j] Some by (simp add: store_def)
      from Cons.IH[OF rest this] False Some v show ?thesis
        by (simp add: unmatched_def Let_def read_line_eq)
    qed
  qed
qed

text \<open>
  C6, as amended. Read without values, the output of the engine is parsed without an
  error, whatever its predicates are. In either mode, when the parser returns, an atom whose
  predicate names no relation is not an error: it is stored like every other atom, under
  the key \<open>None\<close> that stands for "no relation"; and the entries of the relations are
  those that the parser returns for the output without these atoms.
\<close>

theorem unmatched_atoms:
  "(\<exists>m. read_results pf rels out False = Inr m)
   \<and> (\<forall>m. read_results pf rels out hv = Inr m \<longrightarrow>
         (\<forall>l\<in>set out. unmatched rels l \<longrightarrow>
            (\<exists>found. m None = Some found \<and> found (arguments_of (strip l)) \<noteq> None))
       \<and> (\<exists>m'. read_results pf rels (filter (\<lambda>l. \<not> unmatched rels l) out) hv = Inr m'
              \<and> (\<forall>i. m' (Some i) = m (Some i))))"
proof (intro conjI allI impI ballI)
  show "\<exists>m. read_results pf rels out False = Inr m"
    by (simp add: read_results_no_value)
next
  fix m l
  assume "read_results pf rels out hv = Inr m" "l \<in> set out" "unmatched rels l"
  with read_lines_records[of l out pf rels hv Map.empty m]
  show "\<exists>found. m None = Some found \<and> found (arguments_of (strip l)) \<noteq> None"
    by (simp add: read_results_def unmatched_def)
next
  fix m
  assume "read_results pf rels out hv = Inr m"
  with read_lines_filter[of pf rels hv out Map.empty m Map.empty]
  show "\<exists>m'. read_results pf rels (filter (\<lambda>l. \<not> unmatched rels l) out) hv = Inr m'
              \<and> (\<forall>i. m' (Some i) = m (Some i))"
    by (simp add: read_results_def)
qed

theorem unmatched_atoms_witness:
  "\<exists>m m'. read_results decimal [friends, smokes] (map_engine ([], [], [])) False = Inr m
     \<and> (\<exists>found. m None = Some found \<and> found [''anna''] \<noteq> None)
     \<and> read_results decimal [friends, smokes]
           [''SMOKES(\"anna\")'' @ [CHR 0x09] @ ''0.73'' @ [CHR 0x0A], [CHR 0x0A]] False = Inr m'
     \<and> m' (Some 1) = m (Some 1)"
proof -
  let ?out = "map_engine ([], [], [])"
  let ?rels = "[friends, smokes :: rat relation]"
  have l: "''Cancer(anna)'' @ [CHR 0x0A] \<in> set ?out"
    by (simp add: map_engine_def)
  have u: "unmatched ?rels (''Cancer(anna)'' @ [CHR 0x0A])"
    by code_simp
  have a: "arguments_of (strip (''Cancer(anna)'' @ [CHR 0x0A])) = [''anna'']"
    by code_simp
  have f: "filter (\<lambda>l. \<not> unmatched ?rels l) ?out
      = [''SMOKES(\"anna\")'' @ [CHR 0x09] @ ''0.73'' @ [CHR 0x0A], [CHR 0x0A]]"
    unfolding map_engine_def by code_simp
  from unmatched_atoms[of decimal ?rels ?out False]
  obtain m where m: "read_results decimal ?rels ?out False = Inr m"
    and rest: "(\<forall>l\<in>set ?out. unmatched ?rels l \<longrightarrow>
            (\<exists>found. m None = Some found \<and> found (arguments_of (strip l)) \<noteq> None))
       \<and> (\<exists>m'. read_results decimal ?rels (filter (\<lambda>l. \<not> unmatched ?rels l) ?out) False = Inr m'
              \<and> (\<forall>i. m' (Some i) = m (Some i)))"
    by blast
  from rest l u a have "\<exists>found. m None = Some found \<and> found [''anna''] \<noteq> None"
    by metis
  moreover from rest f obtain m' where
    "read_results decimal ?rels
       [''SMOKES(\"anna\")'' @ [CHR 0x09] @ ''0.73'' @ [CHR 0x0A], [CHR 0x0A]] False = Inr m'"
    "m' (Some 1) = m (Some 1)"
    by metis
  ultimately show ?thesis using m by blast
qed

text \<open>
  The claim as it was stated fails in that a result is recorded for an unmatched
  predicate: the atom \<open>Cancer(anna)\<close> of an undeclared relation is found under \<open>None\<close>.
\<close>

theorem unmatched_atoms_counterexample:
  "(case read_results decimal [friends, smokes] (map_engine ([], [], [])) False of
      Inr m \<Rightarrow> (case m None of Some found \<Rightarrow> found [''anna''] = Some 1 | None \<Rightarrow> False)
    | Inl e \<Rightarrow> False)"
  by code_simp

subsection \<open>Learned weights\<close>

lemma parse_lines_eq: "parse_lines pf skip out st = run_lines pf (rule_lines skip out) st"
  by (induction out arbitrary: skip st) (auto simp: Let_def split: sum.splits)

lemma parse_weights_eq:
  "parse_weights pf rels rules out =
     run_lines pf (rule_lines True out) (replicate (length rules) Unset, rels)"
  by (simp add: parse_weights_def parse_lines_eq)

lemma parse_line_prior:
  "re_search prior_re line = Some g \<Longrightarrow>
   parse_line pf line (ws, rels) =
     (case pf (g 1) of
        None \<Rightarrow> Inl (ValueError [])
      | Some w \<Rightarrow>
          (case relation_map rels (upper (g 2)) of
             None \<Rightarrow> Inl (ValueError (''Could not find relation ('' @ upper (g 2)
                       @ '') found in prior: '' @ quoted line @ ''.''))
           | Some i \<Rightarrow> Inr (ws, rels[i := set_negative_prior_weight w (rels ! i)])))"
  by (simp add: parse_line_def Let_def split: option.splits)

lemma parse_line_soft:
  "re_search prior_re line = None \<Longrightarrow> re_search soft_re line = Some g \<Longrightarrow>
   parse_line pf line (ws, rels) =
     (case pf (g 1) of
        None \<Rightarrow> Inl (ValueError [])
      | Some w \<Rightarrow>
          (case int_float (g 2) of
             Inl e \<Rightarrow> Inl e
           | Inr k \<Rightarrow> (case assign ws (k - 1) (Weight w) of
                         Inl e \<Rightarrow> Inl e
                       | Inr ws' \<Rightarrow> Inr (ws', rels))))"
  by (simp add: parse_line_def Let_def)

lemma parse_line_hard:
  "re_search prior_re line = None \<Longrightarrow> re_search soft_re line = None \<Longrightarrow>
   re_search hard_re line = Some g \<Longrightarrow>
   parse_line pf line (ws, rels) =
     (case int_float (g 1) of
        Inl e \<Rightarrow> Inl e
      | Inr k \<Rightarrow> (case assign ws (k - 1) Hard of
                    Inl e \<Rightarrow> Inl e
                  | Inr ws' \<Rightarrow> Inr (ws', rels)))"
  by (simp add: parse_line_def Let_def)

lemma parse_line_malformed:
  "malformed line \<Longrightarrow>
   parse_line pf line st =
     Inl (ValueError (''Could not parse learned Tuffy weight from output rule: ''
            @ quoted line @ ''.''))"
  by (simp add: parse_line_def malformed_def Let_def)

lemma parse_line_ok_not_malformed: "parse_line pf line st = Inr st' \<Longrightarrow> \<not> malformed line"
  by (auto simp: parse_line_malformed)

lemma run_lines_append:
  "run_lines pf (pre @ post) st =
     (case run_lines pf pre st of Inl e \<Rightarrow> Inl e | Inr st' \<Rightarrow> run_lines pf post st')"
  by (induction pre arbitrary: st) (auto split: sum.splits)

lemma run_lines_ok_not_malformed:
  "run_lines pf ls st = Inr st' \<Longrightarrow> line \<in> set ls \<Longrightarrow> \<not> malformed line"
proof (induction ls arbitrary: st)
  case Nil
  then show ?case by simp
next
  case (Cons l ls)
  then show ?case
    by (auto split: sum.splits dest: parse_line_ok_not_malformed)
qed

lemma contains_iff: "contains sub s \<longleftrightarrow> (\<exists>p q. s = p @ sub @ q)"
proof (induction s)
  case Nil
  then show ?case by auto
next
  case (Cons c cs)
  show ?case
  proof
    assume "contains sub (c # cs)"
    then consider "prefix sub (c # cs)" | "contains sub cs" by auto
    then show "\<exists>p q. c # cs = p @ sub @ q"
    proof cases
      case 1
      then obtain q where "c # cs = sub @ q" by (auto simp: prefix_def)
      then have "c # cs = [] @ sub @ q" by simp
      then show ?thesis by blast
    next
      case 2
      with Cons obtain p q where "cs = p @ sub @ q" by blast
      then have "c # cs = (c # p) @ sub @ q" by simp
      then show ?thesis by blast
    qed
  next
    assume "\<exists>p q. c # cs = p @ sub @ q"
    then obtain p q where pq: "c # cs = p @ sub @ q" by blast
    show "contains sub (c # cs)"
    proof (cases p)
      case Nil
      with pq have "prefix sub (c # cs)" by (simp add: prefix_def)
      then show ?thesis by simp
    next
      case (Cons x p')
      with pq have "cs = p' @ sub @ q" by simp
      with Cons.IH show ?thesis by auto
    qed
  qed
qed

lemma contains_quoted: "contains line (pre @ quoted line @ post)"
proof -
  have "pre @ quoted line @ post = (pre @ [CHR 0x27]) @ line @ ([CHR 0x27] @ post)"
    by (simp add: quoted_def)
  then show ?thesis unfolding contains_iff by blast
qed

text \<open>
  C3, as amended. Of the output in learn mode, the lines after the first line that holds
  the text \<open>WEIGHT OF LAST ITERATION\<close> are parsed, except the blank ones and except those
  that hold the text of the marker again. Each of them is tried against the three patterns
  in a fixed order, and the first that matches decides: the pattern of a prior weight, then
  the one of a soft rule, then the one of a hard rule. Such a line that none of them matches
  is not skipped: it ends the parsing with a \<open>ValueError\<close> whose message holds the line. So
  an output that is parsed to its end has no such line.
\<close>

theorem three_patterns_in_order:
  "(\<forall>g. re_search prior_re line = Some g \<longrightarrow>
       parse_line pf line (ws, rels) =
         (case pf (g 1) of
            None \<Rightarrow> Inl (ValueError [])
          | Some w \<Rightarrow>
              (case relation_map rels (upper (g 2)) of
                 None \<Rightarrow> Inl (ValueError (''Could not find relation ('' @ upper (g 2)
                           @ '') found in prior: '' @ quoted line @ ''.''))
               | Some i \<Rightarrow> Inr (ws, rels[i := set_negative_prior_weight w (rels ! i)]))))
   \<and> (\<forall>g. re_search prior_re line = None \<and> re_search soft_re line = Some g \<longrightarrow>
       parse_line pf line (ws, rels) =
         (case pf (g 1) of
            None \<Rightarrow> Inl (ValueError [])
          | Some w \<Rightarrow>
              (case int_float (g 2) of
                 Inl e \<Rightarrow> Inl e
               | Inr k \<Rightarrow> (case assign ws (k - 1) (Weight w) of
                             Inl e \<Rightarrow> Inl e
                           | Inr ws' \<Rightarrow> Inr (ws', rels)))))
   \<and> (\<forall>g. re_search prior_re line = None \<and> re_search soft_re line = None
          \<and> re_search hard_re line = Some g \<longrightarrow>
       parse_line pf line (ws, rels) =
         (case int_float (g 1) of
            Inl e \<Rightarrow> Inl e
          | Inr k \<Rightarrow> (case assign ws (k - 1) Hard of
                        Inl e \<Rightarrow> Inl e
                      | Inr ws' \<Rightarrow> Inr (ws', rels))))
   \<and> (\<forall>pre post st. rule_lines True out = pre @ line # post
          \<and> run_lines pf pre (replicate (length rules) Unset, rels) = Inr st
          \<and> malformed line \<longrightarrow>
       parse_weights pf rels rules out =
         Inl (ValueError (''Could not parse learned Tuffy weight from output rule: ''
                @ quoted line @ ''.''))
       \<and> contains line (''Could not parse learned Tuffy weight from output rule: ''
                @ quoted line @ ''.''))
   \<and> (\<forall>r. parse_weights pf rels rules out = Inr r \<longrightarrow>
         (\<forall>l\<in>set (rule_lines True out). \<not> malformed l))"
proof (intro conjI allI impI ballI)
  fix g assume "re_search prior_re line = Some g"
  then show "parse_line pf line (ws, rels) =
         (case pf (g 1) of
            None \<Rightarrow> Inl (ValueError [])
          | Some w \<Rightarrow>
              (case relation_map rels (upper (g 2)) of
                 None \<Rightarrow> Inl (ValueError (''Could not find relation ('' @ upper (g 2)
                           @ '') found in prior: '' @ quoted line @ ''.''))
               | Some i \<Rightarrow> Inr (ws, rels[i := set_negative_prior_weight w (rels ! i)])))"
    by (rule parse_line_prior)
next
  fix g assume "re_search prior_re line = None \<and> re_search soft_re line = Some g"
  then show "parse_line pf line (ws, rels) =
         (case pf (g 1) of
            None \<Rightarrow> Inl (ValueError [])
          | Some w \<Rightarrow>
              (case int_float (g 2) of
                 Inl e \<Rightarrow> Inl e
               | Inr k \<Rightarrow> (case assign ws (k - 1) (Weight w) of
                             Inl e \<Rightarrow> Inl e
                           | Inr ws' \<Rightarrow> Inr (ws', rels))))"
    by (simp add: parse_line_soft)
next
  fix g assume "re_search prior_re line = None \<and> re_search soft_re line = None
          \<and> re_search hard_re line = Some g"
  then show "parse_line pf line (ws, rels) =
         (case int_float (g 1) of
            Inl e \<Rightarrow> Inl e
          | Inr k \<Rightarrow> (case assign ws (k - 1) Hard of
                        Inl e \<Rightarrow> Inl e
                      | Inr ws' \<Rightarrow> Inr (ws', rels)))"
    by (simp add: parse_line_hard)
next
  fix pre post st
  assume "rule_lines True out = pre @ line # post
          \<and> run_lines pf pre (replicate (length rules) Unset, rels) = Inr st
          \<and> malformed line"
  then show "parse_weights pf rels rules out =
         Inl (ValueError (''Could not parse learned Tuffy weight from output rule: ''
                @ quoted line @ ''.''))"
    by (simp add: parse_weights_eq run_lines_append parse_line_malformed)
next
  show "contains line (''Could not parse learned Tuffy weight from output rule: ''
                @ quoted line @ ''.'')"
    by (rule contains_quoted)
next
  fix r l
  assume "parse_weights pf rels rules out = Inr r" "l \<in> set (rule_lines True out)"
  then show "\<not> malformed l"
    by (simp add: parse_weights_eq run_lines_ok_not_malformed)
qed

theorem three_patterns_in_order_witness:
  "parse_weights decimal [friends, smokes] [peer_rule, symmetry_rule] broken_output =
     Inl (ValueError (''Could not parse learned Tuffy weight from output rule: ''
            @ quoted ''1.75 Smokes(a)'' @ ''.''))"
proof -
  have ls: "rule_lines True broken_output = [''1.75 Smokes(a) //1.0''] @ ''1.75 Smokes(a)'' # []"
    by code_simp
  have pre: "run_lines decimal [''1.75 Smokes(a) //1.0'']
       (replicate (length [peer_rule, symmetry_rule]) Unset, [friends, smokes])
     = Inr ([Weight (7 / 4), Unset], [friends, smokes])"
    by code_simp
  have bad: "malformed ''1.75 Smokes(a)''"
    by code_simp
  from three_patterns_in_order[of "''1.75 Smokes(a)''" decimal _ "[friends, smokes]" broken_output
      "[peer_rule, symmetry_rule]"] ls pre bad
  show ?thesis by blast
qed

text \<open>
  The claim as it was stated fails for a line after the marker that holds the text of the
  marker again: it is not blank, none of the three patterns matches it, and it is skipped
  without an error.
\<close>

theorem three_patterns_in_order_counterexample:
  "parse_weights decimal [smokes] [peer_rule] marker_twice = Inr ([Unset], [smokes])
   \<and> strip (''no rule: WEIGHT OF LAST ITERATION'' @ [CHR 0x0A]) = ''no rule: WEIGHT OF LAST ITERATION''
   \<and> malformed ''no rule: WEIGHT OF LAST ITERATION''"
  by code_simp

lemma of_char_upper_char:
  "(of_char (upper_char c) :: nat) =
     (if 97 \<le> (of_char c :: nat) \<and> (of_char c :: nat) \<le> 122 then of_char c - 32 else of_char c)"
  by (auto simp: upper_char_def Let_def)

lemma upper_char_eq_iff: "upper_char c = upper_char d \<longleftrightarrow> lower_char c = lower_char d"
proof -
  define m where "m = (of_char c :: nat)"
  define n where "n = (of_char d :: nat)"
  have cd: "c = d \<longleftrightarrow> m = n" by (simp add: m_def n_def)
  have "upper_char c = upper_char d \<longleftrightarrow> (of_char (upper_char c) :: nat) = of_char (upper_char d)"
    by (simp only: of_char_eq_iff)
  also have "\<dots> \<longleftrightarrow> (of_char (lower_char c) :: nat) = of_char (lower_char d)"
    unfolding of_char_upper_char of_char_lower_char m_def[symmetric] n_def[symmetric]
    by (auto split: if_splits)
  also have "\<dots> \<longleftrightarrow> lower_char c = lower_char d"
    by (simp only: of_char_eq_iff)
  finally show ?thesis .
qed

lemma upper_eq_iff: "upper a = upper b \<longleftrightarrow> same_name a b"
proof (induction a arbitrary: b)
  case Nil
  then show ?case by (auto simp: upper_def lower_def same_name_def)
next
  case (Cons x a)
  then show ?case
    by (cases b) (auto simp: upper_def lower_def same_name_def upper_char_eq_iff)
qed

lemma fold_upd_None:
  "fold (\<lambda>i m. m(f i \<mapsto> i)) [0..<n] Map.empty key = None \<longleftrightarrow> (\<forall>j<n. f j \<noteq> key)"
  by (induction n) (auto simp: less_Suc_eq)

lemma fold_upd_Some:
  "fold (\<lambda>i m. m(f i \<mapsto> i)) [0..<n] Map.empty key = Some i \<longleftrightarrow>
     i < n \<and> f i = key \<and> (\<forall>j. i < j \<and> j < n \<longrightarrow> f j \<noteq> key)"
proof (induction n)
  case 0
  then show ?case by simp
next
  case (Suc n)
  show ?case
  proof (cases "f n = key")
    case True
    then show ?thesis by (auto simp: less_Suc_eq)
  next
    case False
    with Suc show ?thesis by (auto simp: less_Suc_eq)
  qed
qed

lemma relation_map_None:
  "relation_map rels (upper nm) = None \<longleftrightarrow> (\<forall>r\<in>set rels. \<not> same_name (name r) nm)"
proof -
  have "relation_map rels (upper nm) = None \<longleftrightarrow> (\<forall>j<length rels. upper (name (rels ! j)) \<noteq> upper nm)"
    unfolding relation_map_def by (rule fold_upd_None)
  also have "\<dots> \<longleftrightarrow> (\<forall>r\<in>set rels. \<not> same_name (name r) nm)"
    by (auto simp: upper_eq_iff all_set_conv_all_nth)
  finally show ?thesis .
qed

lemma relation_map_Some:
  "relation_map rels (upper nm) = Some i \<longleftrightarrow>
     i < length rels \<and> same_name (name (rels ! i)) nm
     \<and> (\<forall>j. i < j \<and> j < length rels \<longrightarrow> \<not> same_name (name (rels ! j)) nm)"
  unfolding relation_map_def fold_upd_Some upper_eq_iff ..

text \<open>
  C4. A line \<open><float> !<NAME>(<args>) //<index>.0\<close> is a prior weight. Its name is looked
  up among the relations without regard to the case of letters. If no relation has the
  name, the parsing fails at this line, with an error whose message holds the line. If
  relations have it, the float of the line becomes the negative prior weight of the one
  that the dictionary of the names holds, which is the last of them.
\<close>

theorem prior_weight_lines:
  assumes "re_search prior_re line = Some g" and "pf (g 1) = Some w"
  shows "((\<forall>r\<in>set rels. \<not> same_name (name r) (g 2)) \<longrightarrow>
            parse_line pf line (ws, rels) =
              Inl (ValueError (''Could not find relation ('' @ upper (g 2)
                     @ '') found in prior: '' @ quoted line @ ''.''))
            \<and> contains line (''Could not find relation ('' @ upper (g 2)
                     @ '') found in prior: '' @ quoted line @ ''.'')
            \<and> (\<forall>pre post st. rule_lines True out = pre @ line # post
                  \<and> run_lines pf pre (replicate (length rules) Unset, rels0) = Inr (ws, rels) \<longrightarrow>
                parse_weights pf rels0 rules out =
                  Inl (ValueError (''Could not find relation ('' @ upper (g 2)
                         @ '') found in prior: '' @ quoted line @ ''.''))))
       \<and> (\<forall>i. i < length rels \<and> same_name (name (rels ! i)) (g 2)
              \<and> (\<forall>j. i < j \<and> j < length rels \<longrightarrow> \<not> same_name (name (rels ! j)) (g 2)) \<longrightarrow>
            parse_line pf line (ws, rels) =
              Inr (ws, rels[i := (rels ! i)\<lparr>negative_prior_weight := Some w\<rparr>]))"
proof (intro conjI allI impI)
  assume none: "\<forall>r\<in>set rels. \<not> same_name (name r) (g 2)"
  then have "relation_map rels (upper (g 2)) = None"
    by (simp add: relation_map_None)
  with assms show err: "parse_line pf line (ws, rels) =
      Inl (ValueError (''Could not find relation ('' @ upper (g 2)
             @ '') found in prior: '' @ quoted line @ ''.''))"
    by (simp add: parse_line_prior)
  show "contains line (''Could not find relation ('' @ upper (g 2)
                     @ '') found in prior: '' @ quoted line @ ''.'')"
    using contains_quoted[of line "''Could not find relation ('' @ upper (g 2) @ '') found in prior: ''" "''.''"]
    by simp
  fix pre post st
  assume "rule_lines True out = pre @ line # post
            \<and> run_lines pf pre (replicate (length rules) Unset, rels0) = Inr (ws, rels)"
  with err show "parse_weights pf rels0 rules out =
      Inl (ValueError (''Could not find relation ('' @ upper (g 2)
             @ '') found in prior: '' @ quoted line @ ''.''))"
    by (simp add: parse_weights_eq run_lines_append)
next
  fix i
  assume "i < length rels \<and> same_name (name (rels ! i)) (g 2)
              \<and> (\<forall>j. i < j \<and> j < length rels \<longrightarrow> \<not> same_name (name (rels ! j)) (g 2))"
  then have "relation_map rels (upper (g 2)) = Some i"
    by (simp add: relation_map_Some)
  with assms show "parse_line pf line (ws, rels) =
      Inr (ws, rels[i := (rels ! i)\<lparr>negative_prior_weight := Some w\<rparr>])"
    by (simp add: parse_line_prior set_negative_prior_weight_def)
qed

theorem prior_weight_lines_witness:
  "parse_line decimal ''-0.25 !SMOKES(a1) //3.0'' ([], [friends, smokes])
     = Inr ([], [friends, smokes\<lparr>negative_prior_weight := Some (- 1 / 4)\<rparr>])
   \<and> (\<exists>msg. parse_line decimal ''0.5 !Cancer(a1) //3.0'' ([], [friends, smokes])
                = Inl (ValueError msg) \<and> contains ''0.5 !Cancer(a1) //3.0'' msg)"
proof -
  let ?rels = "[friends, smokes :: rat relation]"
  have "case re_search prior_re ''-0.25 !SMOKES(a1) //3.0'' of
          Some g \<Rightarrow> g 1 = ''-0.25'' \<and> g 2 = ''SMOKES'' | None \<Rightarrow> False"
    by code_simp
  then obtain g where g: "re_search prior_re ''-0.25 !SMOKES(a1) //3.0'' = Some g"
    "g 1 = ''-0.25''" "g 2 = ''SMOKES''"
    by (auto split: option.splits)
  have w: "decimal ''-0.25'' = Some (- 1 / 4)" by code_simp
  have s: "same_name (name (smokes :: rat relation)) ''SMOKES''" by code_simp
  from g w have gw: "decimal (g 1) = Some (- 1 / 4)" by simp
  have prem: "1 < length ?rels \<and> same_name (name (?rels ! 1)) (g 2)
      \<and> (\<forall>j. 1 < j \<and> j < length ?rels \<longrightarrow> \<not> same_name (name (?rels ! j)) (g 2))"
    using s g by simp
  from prior_weight_lines[where pf = decimal and g = g and rels = ?rels and ws = "[]", OF g(1) gw,
      THEN conjunct2, rule_format, of 1, OF prem]
  have one: "parse_line decimal ''-0.25 !SMOKES(a1) //3.0'' ([], ?rels)
     = Inr ([], [friends, smokes\<lparr>negative_prior_weight := Some (- 1 / 4)\<rparr>])"
    by simp
  have "case re_search prior_re ''0.5 !Cancer(a1) //3.0'' of
          Some g \<Rightarrow> g 1 = ''0.5'' \<and> g 2 = ''Cancer'' | None \<Rightarrow> False"
    by code_simp
  then obtain h where h: "re_search prior_re ''0.5 !Cancer(a1) //3.0'' = Some h"
    "h 1 = ''0.5''" "h 2 = ''Cancer''"
    by (auto split: option.splits)
  have w': "decimal ''0.5'' = Some (1 / 2)" by code_simp
  have n: "\<forall>r\<in>set ?rels. \<not> same_name (name r) ''Cancer''" by code_simp
  from h w' have hw: "decimal (h 1) = Some (1 / 2)" by simp
  from prior_weight_lines[where pf = decimal and g = h and rels = ?rels and ws = "[]", OF h(1) hw,
      THEN conjunct1] h n
  have two: "\<exists>msg. parse_line decimal ''0.5 !Cancer(a1) //3.0'' ([], ?rels) = Inl (ValueError msg)
      \<and> contains ''0.5 !Cancer(a1) //3.0'' msg"
    by simp
  from one two show ?thesis by simp
qed

lemma parse_line_tagged:
  "tag line = Some k \<Longrightarrow> entry pf line = Some v \<Longrightarrow>
   parse_line pf line (ws, rels) =
     (case assign ws (k - 1) v of Inl e \<Rightarrow> Inl e | Inr ws' \<Rightarrow> Inr (ws', rels))"
proof -
  assume t: "tag line = Some k" and e: "entry pf line = Some v"
  from t have prior: "re_search prior_re line = None"
    by (auto simp: tag_def split: if_splits)
  show ?thesis
  proof (cases "re_search soft_re line")
    case (Some g)
    with t e prior show ?thesis
      by (auto simp: tag_def entry_def parse_line_soft split: sum.splits option.splits)
  next
    case None
    with t prior obtain g where g: "re_search hard_re line = Some g"
      by (auto simp: tag_def split: option.splits)
    with t e prior None show ?thesis
      by (auto simp: tag_def entry_def parse_line_hard split: sum.splits option.splits)
  qed
qed

lemma parse_line_cases:
  assumes "parse_line pf line (ws, rels) = Inr (ws', rels')"
  shows "(tag line = None \<and> ws' = ws)
       \<or> (\<exists>k v. tag line = Some k \<and> entry pf line = Some v \<and> assign ws (k - 1) v = Inr ws')"
proof (cases "re_search prior_re line")
  case (Some g)
  with assms show ?thesis
    by (auto simp: parse_line_prior tag_def split: option.splits)
next
  case prior: None
  show ?thesis
  proof (cases "re_search soft_re line")
    case (Some g)
    with assms prior show ?thesis
      by (auto simp: parse_line_soft tag_def entry_def split: option.splits sum.splits)
  next
    case soft: None
    show ?thesis
    proof (cases "re_search hard_re line")
      case (Some g)
      with assms prior soft show ?thesis
        by (auto simp: parse_line_hard tag_def entry_def split: option.splits sum.splits)
    next
      case None
      with prior soft have "malformed line" by (simp add: malformed_def)
      with assms show ?thesis by (simp add: parse_line_malformed)
    qed
  qed
qed

lemma assign_from_one:
  "1 \<le> k \<Longrightarrow> assign ws (k - 1) v = Inr ws' \<Longrightarrow> k \<le> int (length ws) \<and> ws' = ws[nat (k - 1) := v]"
  by (auto simp: assign_def split: if_splits)

lemma assign_length: "assign ws i v = Inr ws' \<Longrightarrow> length ws' = length ws"
  by (auto simp: assign_def split: if_splits)


lemma run_lines_untouched:
  "run_lines pf ls (ws, rels) = Inr (ws', rels') \<Longrightarrow>
   (\<And>l k. l \<in> set ls \<Longrightarrow> tag l = Some k \<Longrightarrow> 1 \<le> k) \<Longrightarrow>
   (\<And>l. l \<in> set ls \<Longrightarrow> tag l \<noteq> Some (int i + 1)) \<Longrightarrow>
   ws' ! i = ws ! i"
proof (induction ls arbitrary: ws rels)
  case Nil
  then show ?case by simp
next
  case (Cons l ls)
  from Cons.prems(1) obtain ws1 rels1 where
    step: "parse_line pf l (ws, rels) = Inr (ws1, rels1)" and
    rest: "run_lines pf ls (ws1, rels1) = Inr (ws', rels')"
    by (auto split: sum.splits)
  have "ws1 ! i = ws ! i"
  proof -
    from parse_line_cases[OF step]
    consider "ws1 = ws" | k v where "tag l = Some k" "assign ws (k - 1) v = Inr ws1"
      by blast
    then show ?thesis
    proof cases
      case 1
      then show ?thesis by simp
    next
      case 2
      from Cons.prems(2)[of l k] 2 have k: "1 \<le> k" by simp
      from Cons.prems(3)[of l] 2 have "k \<noteq> int i + 1" by auto
      with k have "nat (k - 1) \<noteq> i" by auto
      with assign_from_one[OF k 2(2)] show ?thesis by simp
    qed
  qed
  moreover have "ws' ! i = ws1 ! i"
    using Cons.prems by (intro Cons.IH[OF rest]) auto
  ultimately show ?case by simp
qed

lemma run_lines_slot:
  "run_lines pf ls (ws, rels) = Inr (ws', rels') \<Longrightarrow>
   (\<And>l k. l \<in> set ls \<Longrightarrow> tag l = Some k \<Longrightarrow> 1 \<le> k) \<Longrightarrow>
   distinct (filter (\<lambda>t. t \<noteq> None) (map tag ls)) \<Longrightarrow>
   l \<in> set ls \<Longrightarrow> tag l = Some k \<Longrightarrow> entry pf l = Some v \<Longrightarrow>
   k \<le> int (length ws) \<and> ws' ! nat (k - 1) = v"
proof (induction ls arbitrary: ws rels)
  case Nil
  then show ?case by simp
next
  case (Cons h ls)
  from Cons.prems(1) obtain ws1 rels1 where
    step: "parse_line pf h (ws, rels) = Inr (ws1, rels1)" and
    rest: "run_lines pf ls (ws1, rels1) = Inr (ws', rels')"
    by (auto split: sum.splits)
  have len: "length ws1 = length ws"
    using parse_line_cases[OF step] by (auto dest: assign_length)
  show ?case
  proof (cases "l = h")
    case True
    from Cons.prems(2)[of l k] Cons.prems(4,5) have k: "1 \<le> k" by simp
    from step True Cons.prems(5,6) have "assign ws (k - 1) v = Inr ws1"
      by (auto simp: parse_line_tagged split: sum.splits)
    from assign_from_one[OF k this] have in_range: "k \<le> int (length ws)" and ws1: "ws1 = ws[nat (k - 1) := v]"
      by simp_all
    from Cons.prems(3,5) True have "Some k \<notin> set (map tag ls)"
      by auto
    then have other: "tag l' \<noteq> Some (int (nat (k - 1)) + 1)" if "l' \<in> set ls" for l'
      using that k by (auto simp: image_iff)
    have "ws' ! nat (k - 1) = ws1 ! nat (k - 1)"
      using Cons.prems(2) other by (intro run_lines_untouched[OF rest]) auto
    with ws1 in_range k show ?thesis by simp
  next
    case False
    with Cons.prems(4) have "l \<in> set ls" by simp
    moreover from Cons.prems(3) have "distinct (filter (\<lambda>t. t \<noteq> None) (map tag ls))"
      by (auto split: if_splits)
    moreover have "1 \<le> k'" if "l' \<in> set ls" "tag l' = Some k'" for l' k'
      using Cons.prems(2)[of l' k'] that by simp
    ultimately have "k \<le> int (length ws1) \<and> ws' ! nat (k - 1) = v"
      using Cons.prems(5,6) by (intro Cons.IH[OF rest]) auto
    with len show ?thesis by simp
  qed
qed

lemma relation_map_names:
  assumes "map name rels' = map name rels"
  shows "relation_map rels' = relation_map rels"
proof -
  from assms have len: "length rels' = length rels"
    by (metis length_map)
  have "name (rels' ! i) = name (rels ! i)" if "i < length rels" for i
    using that assms len by (metis nth_map)
  then have "fold (\<lambda>i m. m(upper (name (rels' ! i)) \<mapsto> i)) [0..<length rels] Map.empty
           = fold (\<lambda>i m. m(upper (name (rels ! i)) \<mapsto> i)) [0..<length rels] Map.empty"
    by (intro fold_cong) auto
  then show ?thesis by (simp add: relation_map_def len)
qed

lemma relation_map_bound: "relation_map rels key = Some i \<Longrightarrow> i < length rels"
  unfolding relation_map_def by (simp add: fold_upd_Some)

lemma parse_line_shape:
  assumes "parse_line pf l (ws, rels) = Inr (ws1, rels1)"
  shows "length ws1 = length ws \<and> map name rels1 = map name rels"
proof -
  have names: "map name (rels[i := set_negative_prior_weight w (rels ! i)]) = map name rels" for i w
    by (cases "i < length rels")
       (simp_all add: map_update set_negative_prior_weight_def list_update_same_conv
          list_update_beyond)
  show ?thesis
  proof (cases "re_search prior_re l")
    case (Some g)
    with assms names show ?thesis
      by (auto simp: parse_line_prior split: option.splits)
  next
    case None
    from parse_line_cases[OF assms] have "length ws1 = length ws"
      by (auto dest: assign_length)
    moreover from assms None have "rels1 = rels"
      by (cases "re_search soft_re l"; cases "re_search hard_re l")
         (auto simp: parse_line_soft parse_line_hard parse_line_malformed malformed_def
            split: option.splits sum.splits)
    ultimately show ?thesis by simp
  qed
qed

lemma assign_ok_length:
  "assign ws i v = Inr ws1 \<Longrightarrow> length ws' = length ws \<Longrightarrow> \<exists>ws1'. assign ws' i v = Inr ws1'"
  by (auto simp: assign_def split: if_splits)

lemma parse_line_ok_shape:
  assumes "parse_line pf l (ws, rels) = Inr (ws1, rels1)"
    and "length ws' = length ws" and "map name rels' = map name rels"
  shows "\<exists>ws1' rels1'. parse_line pf l (ws', rels') = Inr (ws1', rels1')"
proof (cases "re_search prior_re l")
  case (Some g)
  with assms(1) relation_map_names[OF assms(3)] show ?thesis
    by (auto simp: parse_line_prior split: option.splits)
next
  case None
  note prior = None
  show ?thesis
  proof (cases "re_search soft_re l")
    case (Some g)
    with assms(1) prior obtain w k where
      kv: "pf (g 1) = Some w" "int_float (g 2) = Inr k" "assign ws (k - 1) (Weight w) = Inr ws1"
      by (auto simp: parse_line_soft split: option.splits sum.splits)
    from assign_ok_length[OF kv(3) assms(2)] obtain ws1' where
      "assign ws' (k - 1) (Weight w) = Inr ws1'"
      by blast
    with kv prior Some show ?thesis by (simp add: parse_line_soft)
  next
    case soft: None
    show ?thesis
    proof (cases "re_search hard_re l")
      case (Some g)
      with assms(1) prior soft obtain k where
        kv: "int_float (g 1) = Inr k" "assign ws (k - 1) Hard = Inr ws1"
        by (auto simp: parse_line_hard split: sum.splits)
      from assign_ok_length[OF kv(2) assms(2)] obtain ws1' where
        "assign ws' (k - 1) Hard = Inr ws1'"
        by blast
      with kv prior soft Some show ?thesis by (simp add: parse_line_hard)
    next
      case None
      with prior soft have "malformed l" by (simp add: malformed_def)
      with assms(1) show ?thesis by (simp add: parse_line_malformed)
    qed
  qed
qed

lemma run_lines_ok_iff:
  "(\<exists>st'. run_lines pf ls (ws, rels) = Inr st') \<longleftrightarrow>
   (\<forall>l\<in>set ls. \<exists>st'. parse_line pf l (ws, rels) = Inr st')"
proof (induction ls arbitrary: ws rels)
  case Nil
  then show ?case by simp
next
  case (Cons h ls)
  show ?case
  proof (cases "parse_line pf h (ws, rels)")
    case (Inl e)
    then show ?thesis by simp
  next
    case (Inr st1)
    obtain ws1 rels1 where st1: "st1 = (ws1, rels1)" by (cases st1)
    from parse_line_shape[OF Inr[unfolded st1]] have
      shape: "length ws1 = length ws" "map name rels1 = map name rels" by simp_all
    have "(\<exists>st'. parse_line pf l (ws1, rels1) = Inr st') \<longleftrightarrow> (\<exists>st'. parse_line pf l (ws, rels) = Inr st')"
      for l
      using parse_line_ok_shape[of pf l ws1 rels1 _ _ ws rels]
        parse_line_ok_shape[of pf l ws rels _ _ ws1 rels1] shape
      by (metis surj_pair)
    with Cons.IH[of ws1 rels1] Inr st1 show ?thesis by simp
  qed
qed

lemma tagged_has_entry:
  assumes "parse_line pf l (ws, rels) = Inr st'" and "tag l = Some k"
  shows "\<exists>v. entry pf l = Some v"
proof -
  obtain ws1 rels1 where "st' = (ws1, rels1)" by (cases st')
  with parse_line_cases[of pf l ws rels ws1 rels1] assms show ?thesis by auto
qed

lemma run_lines_weights:
  assumes run: "run_lines pf ls (ws, rels) = Inr (ws', rels')"
    and ones: "\<And>l k. l \<in> set ls \<Longrightarrow> tag l = Some k \<Longrightarrow> 1 \<le> k"
    and dist: "distinct (filter (\<lambda>t. t \<noteq> None) (map tag ls))"
    and i: "i < length ws"
  shows "ws' ! i = (case find (\<lambda>l. tag l = Some (int i + 1)) ls of
                     None \<Rightarrow> ws ! i
                   | Some l \<Rightarrow> the (entry pf l))"
proof (cases "find (\<lambda>l. tag l = Some (int i + 1)) ls")
  case None
  then have "\<And>l. l \<in> set ls \<Longrightarrow> tag l \<noteq> Some (int i + 1)"
    by (auto simp: find_None_iff)
  from run_lines_untouched[OF run ones this] None show ?thesis by simp
next
  case (Some l)
  then have l: "l \<in> set ls" "tag l = Some (int i + 1)"
    by (auto simp: find_Some_iff)
  from run have "\<exists>st'. run_lines pf ls (ws, rels) = Inr st'" by simp
  with l(1) obtain st' where "parse_line pf l (ws, rels) = Inr st'"
    unfolding run_lines_ok_iff by blast
  from tagged_has_entry[OF this l(2)] obtain v where v: "entry pf l = Some v" by blast
  from run_lines_slot[OF run ones dist l v] have "ws' ! i = v" by simp
  with Some v show ?thesis by simp
qed



lemma digits_val_snoc: "digits_val (ds @ [c]) = 10 * digits_val ds + (of_char c - 48)"
  by (simp add: digits_val_def)

lemma digits_val_zeros: "digits_val (ds @ replicate n CHR ''0'') = digits_val ds * 10 ^ n"
proof (induction n)
  case 0
  then show ?case by simp
next
  case (Suc n)
  have "ds @ replicate (Suc n) CHR ''0'' = (ds @ replicate n CHR ''0'') @ [CHR ''0'']"
    by (simp add: replicate_append_same)
  then show ?case
    by (simp only: digits_val_snoc Suc) simp
qed

lemma int_float_digits:
  "list_all is_digit ds \<Longrightarrow>
   int_float (ds @ ''.0'') =
     (case to_double (digits_val ds) of None \<Rightarrow> Inl OverflowError | Some d \<Rightarrow> Inr (int d))"
proof -
  assume ds: "list_all is_digit ds"
  have "\<not> is_digit CHR ''.''" by code_simp
  with ds have "takeWhile is_digit (ds @ ''.0'') = ds"
    by (simp add: list_all_iff)
  then show ?thesis
    by (simp add: int_float_def)
qed

lemma int_float_error: "int_float g = Inl e \<Longrightarrow> e = OverflowError"
  by (auto simp: int_float_def split: option.splits)

lemma int_float_nonneg: "int_float g = Inr k \<Longrightarrow> 0 \<le> k"
  by (auto simp: int_float_def split: option.splits)

lemma tag_nonneg: "tag line = Some k \<Longrightarrow> 0 \<le> k"
  by (auto simp: tag_def split: if_splits option.splits sum.splits dest: int_float_nonneg)

lemma huge_tag:
  "int_float (''1'' @ replicate 309 CHR ''0'' @ ''.0'') = Inl OverflowError"
proof -
  have d: "list_all is_digit (''1'' @ replicate 309 CHR ''0'')"
  proof -
    have "is_digit CHR ''1''" "is_digit CHR ''0''" by code_simp+
    then show ?thesis by (simp add: list_all_iff)
  qed
  have one: "digits_val ''1'' = 1" by code_simp
  have v: "digits_val (''1'' @ replicate 309 CHR ''0'') = 10 ^ 309"
    by (simp only: digits_val_zeros one mult_1)
  have inf: "to_double (10 ^ 309) = None"
    by (simp add: to_double_def Let_def)
  have "int_float ((''1'' @ replicate 309 CHR ''0'') @ ''.0'') = Inl OverflowError"
    by (simp only: int_float_digits[OF d] v inf option.case)
  then show ?thesis by (simp only: append_assoc)
qed

lemma to_double_rounds:
  "to_double (2 ^ 53 + 1) = Some (2 ^ 53) \<and> to_double (2 ^ 53 + 3) = Some (2 ^ 53 + 4)
   \<and> to_double (2 ^ 1024 - 2 ^ 970 - 1) = Some (2 ^ 1024 - 2 ^ 971)
   \<and> to_double (2 ^ 1024 - 2 ^ 970) = None"
  by (simp add: to_double_def Let_def)



text \<open>
  C10, as amended. The index of a line is not checked against the number of rules: the
  entry is stored by a plain list assignment at the position \<open>index - 1\<close>. For an index
  from 1 to the number of rules that is the slot of the rule. With the index 0 the
  position is \<open>-1\<close>: when there is at least one rule nothing fails and the entry goes to
  the slot of the last rule, and when there is no rule the assignment raises \<open>IndexError\<close>.
  An index above the number of rules raises \<open>IndexError\<close>, neither a parse nor a lookup
  error. The index is what \<open>int(float(...))\<close> makes of the tag: the number of the tag
  itself as long as a float holds it exactly (up to 53 bits), and where the float is
  infinite the conversion raises \<open>OverflowError\<close> before any slot is touched.
\<close>

theorem index_not_validated:
  "(tag line = Some k \<and> entry pf line = Some v \<longrightarrow>
      0 \<le> k
    \<and> parse_line pf line (ws, rels) =
        (case assign ws (k - 1) v of Inl e \<Rightarrow> Inl e | Inr ws' \<Rightarrow> Inr (ws', rels))
    \<and> (1 \<le> k \<and> k \<le> int (length ws) \<longrightarrow>
          parse_line pf line (ws, rels) = Inr (ws[nat (k - 1) := v], rels))
    \<and> (k = 0 \<and> ws \<noteq> [] \<longrightarrow>
          parse_line pf line (ws, rels) = Inr (ws[length ws - 1 := v], rels))
    \<and> (k = 0 \<and> ws = [] \<longrightarrow> parse_line pf line (ws, rels) = Inl IndexError)
    \<and> (int (length ws) < k \<longrightarrow> parse_line pf line (ws, rels) = Inl IndexError))
   \<and> (\<forall>g w e. re_search prior_re line = None \<and> re_search soft_re line = Some g
         \<and> pf (g 1) = Some w \<and> int_float (g 2) = Inl e \<longrightarrow>
       e = OverflowError \<and> parse_line pf line (ws, rels) = Inl OverflowError)
   \<and> (\<forall>g e. re_search prior_re line = None \<and> re_search soft_re line = None
         \<and> re_search hard_re line = Some g \<and> int_float (g 1) = Inl e \<longrightarrow>
       e = OverflowError \<and> parse_line pf line (ws, rels) = Inl OverflowError)
   \<and> (list_all is_digit ds \<longrightarrow>
        int_float (ds @ ''.0'') =
          (case to_double (digits_val ds) of
             None \<Rightarrow> Inl OverflowError
           | Some d \<Rightarrow> Inr (int d)))
   \<and> (bit_length n \<le> 53 \<longrightarrow> to_double n = Some n)"
proof (intro conjI impI allI)
  assume te: "tag line = Some k \<and> entry pf line = Some v"
  then show "0 \<le> k" using tag_nonneg by blast
  from te show eq: "parse_line pf line (ws, rels) =
        (case assign ws (k - 1) v of Inl e \<Rightarrow> Inl e | Inr ws' \<Rightarrow> Inr (ws', rels))"
    by (simp add: parse_line_tagged)
  {
    assume "1 \<le> k \<and> k \<le> int (length ws)"
    then show "parse_line pf line (ws, rels) = Inr (ws[nat (k - 1) := v], rels)"
      unfolding eq by (simp add: assign_def)
  }
  {
    assume z: "k = 0 \<and> ws \<noteq> []"
    then have "nat (int (length ws) - 1) = length ws - 1" "- int (length ws) \<le> - 1"
      by (cases ws; simp)+
    with z show "parse_line pf line (ws, rels) = Inr (ws[length ws - 1 := v], rels)"
      unfolding eq by (simp add: assign_def)
  }
  {
    assume "k = 0 \<and> ws = []"
    then show "parse_line pf line (ws, rels) = Inl IndexError"
      unfolding eq by (simp add: assign_def)
  }
  {
    assume "int (length ws) < k"
    then show "parse_line pf line (ws, rels) = Inl IndexError"
      unfolding eq by (simp add: assign_def)
  }
next
  fix g w e
  assume a: "re_search prior_re line = None \<and> re_search soft_re line = Some g
         \<and> pf (g 1) = Some w \<and> int_float (g 2) = Inl e"
  then show e: "e = OverflowError" using int_float_error by blast
  from a e show "parse_line pf line (ws, rels) = Inl OverflowError"
    by (simp add: parse_line_soft)
next
  fix g e
  assume a: "re_search prior_re line = None \<and> re_search soft_re line = None
         \<and> re_search hard_re line = Some g \<and> int_float (g 1) = Inl e"
  then show e: "e = OverflowError" using int_float_error by blast
  from a e show "parse_line pf line (ws, rels) = Inl OverflowError"
    by (simp add: parse_line_hard)
next
  assume "list_all is_digit ds"
  then show "int_float (ds @ ''.0'') =
          (case to_double (digits_val ds) of
             None \<Rightarrow> Inl OverflowError
           | Some d \<Rightarrow> Inr (int d))"
    by (rule int_float_digits)
next
  assume "bit_length n \<le> 53"
  then show "to_double n = Some n"
    by (simp add: to_double_def)
qed

theorem index_not_validated_witness:
  "parse_line decimal ''0.5 x //0.0'' ([Unset, Unset], [smokes])
     = Inr ([Unset, Weight (1 / 2)], [smokes])
   \<and> parse_line decimal ''0.5 x //0.0'' ([], [smokes]) = Inl IndexError
   \<and> parse_line decimal ''0.5 x //3.0'' ([Unset, Unset], [smokes]) = Inl IndexError
   \<and> parse_line decimal ''x . //2.0hardfixed'' ([Unset, Unset], [smokes])
     = Inr ([Unset, Hard], [smokes])
   \<and> int_float ''12.0'' = Inr 12"
proof -
  have t: "tag ''0.5 x //0.0'' = Some 0" "tag ''0.5 x //3.0'' = Some 3"
    "tag ''x . //2.0hardfixed'' = Some 2"
    by code_simp+
  have e: "entry decimal ''0.5 x //0.0'' = Some (Weight (1 / 2))"
    "entry decimal ''0.5 x //3.0'' = Some (Weight (1 / 2))"
    "entry decimal ''x . //2.0hardfixed'' = Some Hard"
    by code_simp+
  note th = index_not_validated[where pf = decimal and rels = "[smokes]", THEN conjunct1, rule_format]
  from th[where line = "''0.5 x //0.0''" and k = 0 and v = "Weight (1 / 2)" and ws = "[Unset, Unset]"] t e
  have a: "parse_line decimal ''0.5 x //0.0'' ([Unset, Unset], [smokes])
     = Inr ([Unset, Weight (1 / 2)], [smokes])"
    by (simp add: assign_def)
  from th[where line = "''0.5 x //0.0''" and k = 0 and v = "Weight (1 / 2)" and ws = "[]"] t e
  have a': "parse_line decimal ''0.5 x //0.0'' ([], [smokes]) = Inl IndexError"
    by (simp add: assign_def)
  from th[where line = "''0.5 x //3.0''" and k = 3 and v = "Weight (1 / 2)" and ws = "[Unset, Unset]"] t e
  have b: "parse_line decimal ''0.5 x //3.0'' ([Unset, Unset], [smokes]) = Inl IndexError"
    by (simp add: assign_def)
  from th[where line = "''x . //2.0hardfixed''" and k = 2 and v = Hard and ws = "[Unset, Unset]"] t e
  have c: "parse_line decimal ''x . //2.0hardfixed'' ([Unset, Unset], [smokes])
     = Inr ([Unset, Hard], [smokes])"
    by (simp add: assign_def)
  have dg: "list_all is_digit ''12''" "digits_val ''12'' = 12" "bit_length 12 \<le> 53"
    by code_simp+
  from index_not_validated[where ds = "''12''" and n = 12 and line = "[]" and k = 0
      and pf = decimal and v = Hard and ws = "[]" and rels = "[smokes]"] dg
  have d: "int_float ''12.0'' = Inr 12"
    by simp
  from a a' b c d show ?thesis by simp
qed

text \<open>
  The claim as it was stated fails where there is no rule: a line with the index 0 then
  raises \<open>IndexError\<close>. And a tag of 310 digits is no index at all: its conversion raises
  \<open>OverflowError\<close>.
\<close>

theorem index_not_validated_counterexample:
  "parse_weights decimal [smokes] [] index_zero_output = Inl IndexError
   \<and> tag ''0.5 x //0.0'' = Some 0
   \<and> int_float (''1'' @ replicate 309 CHR ''0'' @ ''.0'') = Inl OverflowError"
proof -
  have "parse_weights decimal [smokes] ([] :: rat rule list) index_zero_output = Inl IndexError"
    by code_simp
  moreover have "tag ''0.5 x //0.0'' = Some 0"
    by code_simp
  ultimately show ?thesis using huge_tag by simp
qed

end
